theory Spec2Isabelle
  imports Complex_Main "HOL-Library.Word"
begin

section \<open>Python values shared by the services\<close>

text \<open>
  Exceptions that the modelled functions can raise. A function that can raise returns
  a sum, with \<open>Inl\<close> for the exception.
\<close>

datatype py_exn =
  IndexError | KeyError | TypeError | JSONDecodeError | OSError | PermissionError

text \<open>Python's \<open>int(x)\<close> on a float truncates towards zero.\<close>

definition py_int :: "real \<Rightarrow> int" where
  "py_int x = (if 0 \<le> x then \<lfloor>x\<rfloor> else \<lceil>x\<rceil>)"

section \<open>rate\_limiter.py\<close>

text \<open>
  \<open>time.time()\<close> is a float; timestamps are modelled as reals and the clock reading is
  an argument of every operation. The two \<open>defaultdict(deque)\<close> are maps from the API key
  to the deque, a list with its left end first; reading a missing key of a
  \<open>defaultdict\<close> gives the empty deque and stores it under the key.
\<close>

type_synonym api_key = string
type_synonym timestamp = real

record rate_limiter =
  requests_per_minute :: int
  requests_per_hour :: int
  minute_requests :: "api_key \<rightharpoonup> timestamp list"
  hour_requests :: "api_key \<rightharpoonup> timestamp list"

definition RateLimiter :: "int \<Rightarrow> int \<Rightarrow> rate_limiter" where
  "RateLimiter rpm rph =
     \<lparr>requests_per_minute = rpm, requests_per_hour = rph,
      minute_requests = Map.empty, hour_requests = Map.empty\<rparr>"

text \<open>The constructor's default arguments.\<close>

definition RateLimiter_default :: rate_limiter where
  "RateLimiter_default = RateLimiter 10 60"

definition dd_get :: "(api_key \<rightharpoonup> timestamp list) \<Rightarrow> api_key \<Rightarrow> timestamp list" where
  "dd_get m k = (case m k of None \<Rightarrow> [] | Some w \<Rightarrow> w)"

text \<open>
  The loop \<open>while d and d[0] < cutoff: d.popleft()\<close> of \<open>_cleanup_old_requests\<close>.
\<close>

fun popleft_while :: "timestamp \<Rightarrow> timestamp list \<Rightarrow> timestamp list" where
  "popleft_while cutoff [] = []"
| "popleft_while cutoff (t # ts) =
     (if t < cutoff then popleft_while cutoff ts else t # ts)"

definition cleanup_old_requests :: "rate_limiter \<Rightarrow> api_key \<Rightarrow> timestamp \<Rightarrow> rate_limiter" where
  "cleanup_old_requests rl k current_time =
     (let minute_ago = current_time - 60;
          hour_ago = current_time - 3600
      in rl\<lparr>minute_requests :=
               (minute_requests rl)(k \<mapsto> popleft_while minute_ago (dd_get (minute_requests rl) k)),
             hour_requests :=
               (hour_requests rl)(k \<mapsto> popleft_while hour_ago (dd_get (hour_requests rl) k))\<rparr>)"

definition check_rate_limit :: "rate_limiter \<Rightarrow> api_key \<Rightarrow> timestamp \<Rightarrow> bool \<times> rate_limiter" where
  "check_rate_limit rl k current_time =
     (let rl1 = cleanup_old_requests rl k current_time;
          minute_count = int (length (dd_get (minute_requests rl1) k));
          hour_count = int (length (dd_get (hour_requests rl1) k))
      in if minute_count \<ge> requests_per_minute rl1 then (False, rl1)
         else if hour_count \<ge> requests_per_hour rl1 then (False, rl1)
         else (True,
               rl1\<lparr>minute_requests :=
                      (minute_requests rl1)(k \<mapsto> dd_get (minute_requests rl1) k @ [current_time]),
                    hour_requests :=
                      (hour_requests rl1)(k \<mapsto> dd_get (hour_requests rl1) k @ [current_time])\<rparr>))"

text \<open>
  \<open>get_retry_after\<close> reads element 0 of a deque; on an empty deque that is an
  \<open>IndexError\<close> (reachable only with a limit \<open>\<le> 0\<close>).
\<close>

definition deque_first :: "timestamp list \<Rightarrow> py_exn + timestamp" where
  "deque_first d = (case d of [] \<Rightarrow> Inl IndexError | t # _ \<Rightarrow> Inr t)"

definition get_retry_after :: "rate_limiter \<Rightarrow> api_key \<Rightarrow> timestamp \<Rightarrow> (py_exn + int) \<times> rate_limiter" where
  "get_retry_after rl k current_time =
     (let rl1 = cleanup_old_requests rl k current_time
      in if int (length (dd_get (minute_requests rl1) k)) \<ge> requests_per_minute rl1 then
           (case deque_first (dd_get (minute_requests rl1) k) of
              Inl e \<Rightarrow> (Inl e, rl1)
            | Inr oldest_minute \<Rightarrow>
                (Inr (py_int (60 - (current_time - oldest_minute)) + 1), rl1))
         else if int (length (dd_get (hour_requests rl1) k)) \<ge> requests_per_hour rl1 then
           (case deque_first (dd_get (hour_requests rl1) k) of
              Inl e \<Rightarrow> (Inl e, rl1)
            | Inr oldest_hour \<Rightarrow>
                (Inr (py_int (3600 - (current_time - oldest_hour)) + 1), rl1))
         else (Inr 0, rl1))"

definition get_remaining_requests :: "rate_limiter \<Rightarrow> api_key \<Rightarrow> timestamp \<Rightarrow> (int \<times> int) \<times> rate_limiter" where
  "get_remaining_requests rl k current_time =
     (let rl1 = cleanup_old_requests rl k current_time
      in ((max 0 (requests_per_minute rl1 - int (length (dd_get (minute_requests rl1) k))),
           max 0 (requests_per_hour rl1 - int (length (dd_get (hour_requests rl1) k)))),
          rl1))"

text \<open>
  A run of the limiter: calls of the three operations that read the clock, for any keys,
  in any order. \<open>run_calls\<close> returns the limiter after the run and, for every call of
  \<open>check_rate_limit\<close>, the key, the clock reading and the answer.
\<close>

datatype limiter_call =
    Check api_key timestamp
  | RetryAfter api_key timestamp
  | Remaining api_key timestamp

fun call_time :: "limiter_call \<Rightarrow> timestamp" where
  "call_time (Check k t) = t"
| "call_time (RetryAfter k t) = t"
| "call_time (Remaining k t) = t"

fun run_calls :: "rate_limiter \<Rightarrow> limiter_call list \<Rightarrow> (api_key \<times> timestamp \<times> bool) list \<times> rate_limiter" where
  "run_calls rl [] = ([], rl)"
| "run_calls rl (Check k t # cs) =
     (let (ok, rl1) = check_rate_limit rl k t;
          (answers, rl2) = run_calls rl1 cs
      in ((k, t, ok) # answers, rl2))"
| "run_calls rl (RetryAfter k t # cs) = run_calls (snd (get_retry_after rl k t)) cs"
| "run_calls rl (Remaining k t # cs) = run_calls (snd (get_remaining_requests rl k t)) cs"

text \<open>The admitted requests of key \<open>k\<close> of a run whose timestamp is not before \<open>since\<close>.\<close>

definition admitted_since :: "api_key \<Rightarrow> timestamp \<Rightarrow> (api_key \<times> timestamp \<times> bool) list \<Rightarrow> nat" where
  "admitted_since k since answers =
     length (filter (\<lambda>(k', t, ok). k' = k \<and> ok \<and> since \<le> t) answers)"

text \<open>
  A run used as an example: two admitted requests of \<open>k1\<close> under a limit of two per minute.
\<close>

definition two_requests :: "limiter_call list" where
  "two_requests = [Check ''k1'' 0, Check ''k2'' 1, Check ''k1'' 5, RetryAfter ''k1'' 6]"

text \<open>
  The retry delay as the specification words it, for comparison with \<open>get_retry_after\<close>:
  for each window at capacity the ceiling of the time until its oldest timestamp leaves
  the window, plus one; the longer of the two when both are at capacity; zero when
  neither is.
\<close>

definition claimed_retry_after :: "rate_limiter \<Rightarrow> api_key \<Rightarrow> timestamp \<Rightarrow> int" where
  "claimed_retry_after rl k now =
     (let pm = dropWhile (\<lambda>t. t < now - 60) (dd_get (minute_requests rl) k);
          ph = dropWhile (\<lambda>t. t < now - 3600) (dd_get (hour_requests rl) k);
          minute_wait = (if requests_per_minute rl \<le> int (length pm)
                         then \<lceil>60 - (now - hd pm)\<rceil> + 1 else 0);
          hour_wait = (if requests_per_hour rl \<le> int (length ph)
                       then \<lceil>3600 - (now - hd ph)\<rceil> + 1 else 0)
      in max minute_wait hour_wait)"

text \<open>Example limiters: the default limits with ten requests of \<open>k1\<close> at time 0; a
  limit of two per hour with a full hour window and an empty minute window; and limits
  of two per minute and three per hour with both windows of \<open>k1\<close> full.\<close>

definition full_minute :: rate_limiter where
  "full_minute = RateLimiter_default
     \<lparr>minute_requests := [''k1'' \<mapsto> replicate 10 0],
      hour_requests := [''k1'' \<mapsto> replicate 10 0]\<rparr>"

definition full_hour :: rate_limiter where
  "full_hour = (RateLimiter 10 2)
     \<lparr>minute_requests := [''k1'' \<mapsto> []],
      hour_requests := [''k1'' \<mapsto> [0, 100]]\<rparr>"

definition both_full :: rate_limiter where
  "both_full = (RateLimiter 2 3)
     \<lparr>minute_requests := [''k1'' \<mapsto> [3590, 3595]],
      hour_requests := [''k1'' \<mapsto> [3000, 3590, 3595]]\<rparr>"

section \<open>webhook\_service.py\<close>

text \<open>
  A job is the dictionary built by \<open>create_job\<close>; the three keys that
  \<open>_send_webhook\<close> adds later are optional fields. \<open>datetime.now()\<close> is an argument
  of every operation that reads the clock, in microseconds. The parameters, the result
  and the error message are strings. \<open>save_jobs\<close> rewrites the file and swallows every
  exception; it never changes the table in memory and is left out.
\<close>

type_synonym datetime = int

record job =
  job_id :: string
  job_type :: string
  status :: string
  params :: string
  webhook_url :: "string option"
  webhook_secret :: "string option"
  created_at :: datetime
  updated_at :: datetime
  result :: "string option"
  error :: "string option"
  attempts :: int
  webhook_delivered :: "bool option"
  webhook_delivered_at :: "datetime option"
  webhook_failed :: "bool option"

type_synonym job_table = "string \<rightharpoonup> job"

text \<open>Python's truth value of \<open>None\<close> or a string: \<open>None\<close> and \<open>''\<close> are false.\<close>

definition truthy :: "string option \<Rightarrow> bool" where
  "truthy v = (case v of None \<Rightarrow> False | Some s \<Rightarrow> s \<noteq> [])"

definition create_job ::
  "job_table \<Rightarrow> string \<Rightarrow> string \<Rightarrow> string \<Rightarrow> string option \<Rightarrow> string option \<Rightarrow>
   datetime \<Rightarrow> datetime \<Rightarrow> string \<times> job_table" where
  "create_job jobs uuid jtype ps url secret now1 now2 =
     (uuid,
      jobs(uuid \<mapsto>
        \<lparr>job_id = uuid, job_type = jtype, status = ''pending'', params = ps,
         webhook_url = url, webhook_secret = secret,
         created_at = now1, updated_at = now2,
         result = None, error = None, attempts = 0,
         webhook_delivered = None, webhook_delivered_at = None, webhook_failed = None\<rparr>))"

text \<open>The payload of a notification and the arguments of one \<open>_send_webhook\<close> thread.\<close>

record payload =
  p_job_id :: string
  p_job_type :: string
  p_status :: string
  p_created_at :: datetime
  p_completed_at :: datetime
  p_result :: "string option"
  p_error :: "string option"

record webhook_call =
  call_url :: string
  call_payload :: payload
  call_secret :: "string option"
  call_job_id :: string

text \<open>
  \<open>trigger_webhook\<close> returns the threads it starts: none when the job is unknown or has
  no webhook URL, one otherwise.
\<close>

definition trigger_webhook :: "job_table \<Rightarrow> string \<Rightarrow> webhook_call list" where
  "trigger_webhook jobs jid =
     (case jobs jid of
        None \<Rightarrow> []
      | Some j \<Rightarrow>
          if \<not> truthy (webhook_url j) then []
          else [\<lparr>call_url = the (webhook_url j),
                 call_payload =
                   \<lparr>p_job_id = jid, p_job_type = job_type j, p_status = status j,
                    p_created_at = created_at j, p_completed_at = updated_at j,
                    p_result = result j, p_error = error j\<rparr>,
                 call_secret = webhook_secret j,
                 call_job_id = jid\<rparr>])"

text \<open>
  \<open>update_job_status\<close> returns its Boolean, the table and the webhook threads started.
\<close>

definition update_job_status ::
  "job_table \<Rightarrow> string \<Rightarrow> string \<Rightarrow> string option \<Rightarrow> string option \<Rightarrow> datetime \<Rightarrow>
   bool \<times> job_table \<times> webhook_call list" where
  "update_job_status jobs jid st res err now =
     (case jobs jid of
        None \<Rightarrow> (False, jobs, [])
      | Some j \<Rightarrow>
          let j1 = j\<lparr>status := st, updated_at := now\<rparr>;
              j2 = (if truthy res then j1\<lparr>result := res\<rparr> else j1);
              j3 = (if truthy err then j2\<lparr>error := err\<rparr> else j2);
              jobs1 = jobs(jid \<mapsto> j3)
          in (True, jobs1,
              if st \<in> set [''completed'', ''failed''] then trigger_webhook jobs1 jid else []))"

definition get_job :: "job_table \<Rightarrow> string \<Rightarrow> job option" where
  "get_job jobs jid = jobs jid"

subsection \<open>Delivery\<close>

text \<open>
  One attempt of \<open>requests.post\<close> either returns a response with a status code or
  raises. The answers of the target are a function of the attempt number. The events of
  a delivery are its POSTs and its sleeps, in order.
\<close>

datatype response = Status int | Raises

datatype delivery_event = Post nat | Sleep nat

text \<open>
  The body of the \<open>for attempt in range(max_retries)\<close> loop, over the attempts that
  remain. The second component is the table when the loop returned from inside, and
  \<open>None\<close> when it ran to its end. The \<open>except\<close> clause also catches the
  \<open>KeyError\<close> of marking a job that is no longer in the table.
\<close>

fun send_attempts ::
  "(nat \<Rightarrow> response) \<Rightarrow> job_table \<Rightarrow> string \<Rightarrow> int \<Rightarrow> datetime \<Rightarrow> nat list \<Rightarrow>
   delivery_event list \<times> job_table option" where
  "send_attempts post jobs jid max_retries now [] = ([], None)"
| "send_attempts post jobs jid max_retries now (attempt # rest) =
     (let handler =
            (let (evs, r) = send_attempts post jobs jid max_retries now rest
             in (Post attempt #
                   (if int attempt < max_retries - 1 then [Sleep (2 ^ attempt)] else []) @ evs,
                 r))
      in case post attempt of
           Status code \<Rightarrow>
             if code = 200 then
               (case jobs jid of
                  Some j \<Rightarrow>
                    ([Post attempt],
                     Some (jobs(jid \<mapsto> j\<lparr>webhook_delivered := Some True,
                                         webhook_delivered_at := Some now\<rparr>)))
                | None \<Rightarrow> handler)
             else (let (evs, r) = send_attempts post jobs jid max_retries now rest
                   in (Post attempt # evs, r))
         | Raises \<Rightarrow> handler)"

definition send_webhook ::
  "(nat \<Rightarrow> response) \<Rightarrow> job_table \<Rightarrow> string \<Rightarrow> int \<Rightarrow> datetime \<Rightarrow>
   delivery_event list \<times> (py_exn + job_table)" where
  "send_webhook post jobs jid max_retries now =
     (case send_attempts post jobs jid max_retries now [0..<nat max_retries] of
        (evs, Some jobs1) \<Rightarrow> (evs, Inr jobs1)
      | (evs, None) \<Rightarrow>
          (case jobs jid of
             None \<Rightarrow> (evs, Inl KeyError)
           | Some j \<Rightarrow>
               (evs, Inr (jobs(jid \<mapsto> j\<lparr>webhook_failed := Some True,
                                          attempts := max_retries\<rparr>)))))"

text \<open>The default \<open>max_retries=3\<close>, as \<open>trigger_webhook\<close> starts the thread.\<close>

definition send_webhook_default ::
  "(nat \<Rightarrow> response) \<Rightarrow> job_table \<Rightarrow> string \<Rightarrow> datetime \<Rightarrow>
   delivery_event list \<times> (py_exn + job_table)" where
  "send_webhook_default post jobs jid now = send_webhook post jobs jid 3 now"



fun first_200 :: "(nat \<Rightarrow> response) \<Rightarrow> nat list \<Rightarrow> nat option" where
  "first_200 post [] = None"
| "first_200 post (i # rest) = (if post i = Status 200 then Some i else first_200 post rest)"

text \<open>Used in the proofs only: the trace of the loop when it makes the attempts
  \<open>atts\<close>, one after the other.\<close>

definition attempt_events :: "(nat \<Rightarrow> response) \<Rightarrow> int \<Rightarrow> nat list \<Rightarrow> delivery_event list" where
  "attempt_events post max_retries atts =
     concat (map (\<lambda>i. Post i #
                    (if post i = Raises \<and> int i < max_retries - 1 then [Sleep (2 ^ i)] else []))
               atts)"

subsection \<open>The asynchronous worker and the service as a whole\<close>

text \<open>
  The thread body of \<open>process_job_async\<close> makes two calls of \<open>update_job_status\<close>:
  the first before the job function runs, the second with its outcome, \<open>Inr\<close> the
  value returned or \<open>Inl\<close> the text of the exception raised.
\<close>

definition worker_begin ::
  "job_table \<Rightarrow> string \<Rightarrow> datetime \<Rightarrow> bool \<times> job_table \<times> webhook_call list" where
  "worker_begin jobs jid now = update_job_status jobs jid ''processing'' None None now"

definition worker_end ::
  "job_table \<Rightarrow> string \<Rightarrow> string + string option \<Rightarrow> datetime \<Rightarrow>
   bool \<times> job_table \<times> webhook_call list" where
  "worker_end jobs jid outcome now =
     (case outcome of
        Inr res \<Rightarrow> update_job_status jobs jid ''completed'' res None now
      | Inl e \<Rightarrow> update_job_status jobs jid ''failed'' None (Some e) now)"

text \<open>
  The service as \<open>app.py\<close> drives it: \<open>screenshot_async\<close> creates a job and starts its
  one worker; workers and webhook threads then run in any order. A state holds the job
  table, the position of every worker, every webhook thread ever started and those that
  have not run yet. An event is one atomic step of one thread; \<open>apply_event\<close> is
  \<open>None\<close> when the event cannot happen in the state. The identifier of a new job is
  fresh, as \<open>uuid.uuid4()\<close> is taken to be.
\<close>

datatype worker_pc = Spawned | Executing | Finished

record system =
  sys_jobs :: job_table
  sys_workers :: "string \<rightharpoonup> worker_pc"
  sys_dispatched :: "webhook_call list"
  sys_pending :: "webhook_call list"

datatype event =
    Submit string string string "string option" "string option" datetime datetime
  | Begin string datetime
  | End string "string + string option" datetime
  | Deliver nat "nat \<Rightarrow> response" datetime

definition started :: "system \<Rightarrow> string \<Rightarrow> worker_pc \<Rightarrow> bool \<times> job_table \<times> webhook_call list \<Rightarrow> system" where
  "started s jid pc r =
     (case r of (ok, jobs1, calls) \<Rightarrow>
        s\<lparr>sys_jobs := jobs1,
          sys_workers := (sys_workers s)(jid \<mapsto> pc),
          sys_dispatched := sys_dispatched s @ calls,
          sys_pending := sys_pending s @ calls\<rparr>)"

fun apply_event :: "system \<Rightarrow> event \<Rightarrow> system option" where
  "apply_event s (Submit uuid jtype ps url secret now1 now2) =
     (if sys_jobs s uuid \<noteq> None \<or> sys_workers s uuid \<noteq> None then None
      else Some (s\<lparr>sys_jobs := snd (create_job (sys_jobs s) uuid jtype ps url secret now1 now2),
                   sys_workers := (sys_workers s)(uuid \<mapsto> Spawned)\<rparr>))"
| "apply_event s (Begin jid now) =
     (if sys_workers s jid = Some Spawned
      then Some (started s jid Executing (worker_begin (sys_jobs s) jid now))
      else None)"
| "apply_event s (End jid outcome now) =
     (if sys_workers s jid = Some Executing
      then Some (started s jid Finished (worker_end (sys_jobs s) jid outcome now))
      else None)"
| "apply_event s (Deliver n post now) =
     (if n < length (sys_pending s) then
        (let c = sys_pending s ! n;
             rest = take n (sys_pending s) @ drop (Suc n) (sys_pending s)
         in case send_webhook_default post (sys_jobs s) (call_job_id c) now of
              (evs, Inr jobs1) \<Rightarrow> Some (s\<lparr>sys_jobs := jobs1, sys_pending := rest\<rparr>)
            | (evs, Inl e) \<Rightarrow> Some (s\<lparr>sys_pending := rest\<rparr>))
      else None)"

fun run :: "system \<Rightarrow> event list \<Rightarrow> system option" where
  "run s [] = Some s"
| "run s (e # es) = (case apply_event s e of None \<Rightarrow> None | Some s1 \<Rightarrow> run s1 es)"

text \<open>The service after start-up: the table loaded from disk, no thread.\<close>

definition initial :: "job_table \<Rightarrow> system" where
  "initial jobs0 = \<lparr>sys_jobs = jobs0, sys_workers = Map.empty,
                    sys_dispatched = [], sys_pending = []\<rparr>"

text \<open>One step of a job's status along pending, processing, then completed or failed,
  or no step.\<close>

definition advances :: "string \<Rightarrow> string \<Rightarrow> bool" where
  "advances a b =
     (b = a \<or> (a = ''pending'' \<and> b = ''processing'') \<or>
      (a = ''processing'' \<and> (b = ''completed'' \<or> b = ''failed'')))"

text \<open>The webhook threads started for a job.\<close>

definition calls_for :: "string \<Rightarrow> webhook_call list \<Rightarrow> webhook_call list" where
  "calls_for jid cs = filter (\<lambda>c. call_job_id c = jid) cs"

text \<open>
  What links a worker's position to its job: the status the job has at that position,
  and the number of webhook threads started for it so far.
\<close>

fun pc_status :: "worker_pc \<Rightarrow> string list" where
  "pc_status Spawned = [''pending'']"
| "pc_status Executing = [''processing'']"
| "pc_status Finished = [''completed'', ''failed'']"

definition worker_ok :: "system \<Rightarrow> string \<Rightarrow> bool" where
  "worker_ok s jid =
     (case sys_workers s jid of
        None \<Rightarrow> calls_for jid (sys_dispatched s) = []
      | Some pc \<Rightarrow>
          (case sys_jobs s jid of
             None \<Rightarrow> False
           | Some j \<Rightarrow>
               status j \<in> set (pc_status pc) \<and>
               length (calls_for jid (sys_dispatched s)) =
                 (if pc = Finished \<and> truthy (webhook_url j) then 1 else 0)))"

definition sys_inv :: "system \<Rightarrow> bool" where
  "sys_inv s = (\<forall>jid. worker_ok s jid)"

subsection \<open>Example values\<close>

definition job1 :: job where
  "job1 = \<lparr>job_id = ''j1'', job_type = ''screenshot'', status = ''completed'',
           params = ''{}'', webhook_url = Some ''https://example.com/hook'',
           webhook_secret = Some ''s3cret'', created_at = 1000, updated_at = 2000,
           result = Some ''screenshots/a.png'', error = None, attempts = 0,
           webhook_delivered = None, webhook_delivered_at = None, webhook_failed = None\<rparr>"


text \<open>A run of the service: a job is submitted and its worker has begun; then the
  worker ends with a result.\<close>

definition demo_events :: "event list" where
  "demo_events =
     [Submit ''u1'' ''screenshot'' ''{}'' (Some ''https://example.com/hook'') None 10 11,
      Begin ''u1'' 20]"

definition demo_job :: job where
  "demo_job = \<lparr>job_id = ''u1'', job_type = ''screenshot'', status = ''processing'',
               params = ''{}'', webhook_url = Some ''https://example.com/hook'',
               webhook_secret = None, created_at = 10, updated_at = 20,
               result = None, error = None, attempts = 0,
               webhook_delivered = None, webhook_delivered_at = None,
               webhook_failed = None\<rparr>"

definition demo_state :: system where
  "demo_state = \<lparr>sys_jobs = [''u1'' \<mapsto> demo_job], sys_workers = [''u1'' \<mapsto> Executing],
                 sys_dispatched = [], sys_pending = []\<rparr>"

definition demo_end :: event where
  "demo_end = End ''u1'' (Inr (Some ''screenshots/a.png'')) 30"

subsection \<open>Signatures\<close>

text \<open>
  \<open>json.dumps(payload, sort_keys=True)\<close> and HMAC-SHA256 are library functions and
  arguments of the model: \<open>dumps\<close> gives the text of a payload, \<open>hmac key msg\<close> the
  32 bytes of the digest. \<open>hexdigest\<close> writes a digest as lower-case hexadecimal.
  \<open>hmac.compare_digest\<close> on two \<open>str\<close> raises \<open>TypeError\<close> unless both are ASCII
  and otherwise answers whether they are equal; the time it takes is outside this model.
\<close>

definition hex_digit :: "nat \<Rightarrow> char" where
  "hex_digit n = ''0123456789abcdef'' ! (n mod 16)"

definition hexdigest :: "8 word list \<Rightarrow> string" where
  "hexdigest bs = concat (map (\<lambda>b. [hex_digit (unat b div 16), hex_digit (unat b mod 16)]) bs)"

definition is_ascii :: "string \<Rightarrow> bool" where
  "is_ascii s = list_all (\<lambda>c. (of_char c :: nat) < 128) s"

definition compare_digest :: "string \<Rightarrow> string \<Rightarrow> py_exn + bool" where
  "compare_digest a b = (if is_ascii a \<and> is_ascii b then Inr (a = b) else Inl TypeError)"

definition generate_signature ::
  "('p \<Rightarrow> string) \<Rightarrow> (string \<Rightarrow> string \<Rightarrow> 8 word list) \<Rightarrow> 'p \<Rightarrow> string \<Rightarrow> string" where
  "generate_signature dumps hmac pl secret =
     (let payload_str = dumps pl
      in hexdigest (hmac secret payload_str))"

definition verify_webhook_signature ::
  "('p \<Rightarrow> string) \<Rightarrow> (string \<Rightarrow> string \<Rightarrow> 8 word list) \<Rightarrow> 'p \<Rightarrow> string \<Rightarrow> string \<Rightarrow>
   py_exn + bool" where
  "verify_webhook_signature dumps hmac pl signature secret =
     (let expected_signature = generate_signature dumps hmac pl secret
      in compare_digest signature expected_signature)"

section \<open>Loading the index files\<close>

text \<open>
  \<open>_load_cache_index\<close> and \<open>load_jobs\<close> first ask \<open>Path.exists()\<close>, outside any
  \<open>try\<close>, and then open and parse the file inside \<open>try ... except Exception\<close>.
  A file is in one of four states: \<open>exists()\<close> answers \<open>False\<close>; \<open>exists()\<close>
  raises (it does so with \<open>PermissionError\<close> when the directory cannot be searched);
  \<open>exists()\<close> answers \<open>True\<close> and opening or reading raises; or the file has a
  text. \<open>json.load\<close> is a library function and an argument of the model: on a text it
  raises or returns a JSON value, which need not be an object. The loaders return
  \<open>Inl\<close> the exception that leaves them, or \<open>Inr\<close> the value they yield.
\<close>

datatype json =
    JNull
  | JBool bool
  | JNumber int
  | JString string
  | JArray "json list"
  | JObject "(string \<times> json) list"

datatype file_state = Missing | ExistsRaises py_exn | Unreadable | Content string

definition load_cache_index ::
  "(string \<Rightarrow> py_exn + json) \<Rightarrow> file_state \<Rightarrow> py_exn + json" where
  "load_cache_index json_load f =
     (case f of
        ExistsRaises x \<Rightarrow> Inl x
      | Missing \<Rightarrow> Inr (JObject [])
      | Unreadable \<Rightarrow> Inr (JObject [])
      | Content text \<Rightarrow>
          (case json_load text of
             Inr v \<Rightarrow> Inr v
           | Inl e \<Rightarrow> Inr (JObject [])))"

text \<open>\<open>load_jobs\<close> assigns \<open>self.jobs\<close>; its last argument is the value before the call,
  which the constructor has set to the empty dictionary.\<close>

definition load_jobs ::
  "(string \<Rightarrow> py_exn + json) \<Rightarrow> file_state \<Rightarrow> json \<Rightarrow> py_exn + json" where
  "load_jobs json_load f jobs_before =
     (case f of
        ExistsRaises x \<Rightarrow> Inl x
      | Missing \<Rightarrow> Inr jobs_before
      | Unreadable \<Rightarrow> Inr (JObject [])
      | Content text \<Rightarrow>
          (case json_load text of
             Inr v \<Rightarrow> Inr v
           | Inl e \<Rightarrow> Inr (JObject [])))"

definition WebhookService_jobs ::
  "(string \<Rightarrow> py_exn + json) \<Rightarrow> file_state \<Rightarrow> py_exn + json" where
  "WebhookService_jobs json_load f = load_jobs json_load f (JObject [])"

fun is_object :: "json \<Rightarrow> bool" where
  "is_object (JObject kvs) = True"
| "is_object v = False"

text \<open>
  \<open>json.load\<close> on the two texts used in the examples below; every other text is
  reported as undecodable by this sample.
\<close>

definition json_load_sample :: "string \<Rightarrow> py_exn + json" where
  "json_load_sample text =
     (if text = ''[]'' then Inr (JArray [])
      else if text = ''{}'' then Inr (JObject [])
      else Inl JSONDecodeError)"

section \<open>cache\_service.py\<close>

text \<open>
  The cache service holds the time to live in hours and the index; the model adds the
  file system. \<open>pathlib\<close>, \<open>shutil\<close> and the file system are libraries and arguments
  of the model, gathered in one record:
  \<^item> \<open>path_str p\<close> is \<open>str(Path(p))\<close>, \<open>path_suffix p\<close> is \<open>Path(p).suffix\<close> and
    \<open>path_join d name\<close> is \<open>str(Path(d) / name)\<close>;
  \<^item> \<open>path_exists fs p\<close> is \<open>Path(p).exists()\<close>, which answers or raises;
  \<^item> \<open>copy2 fs src dst\<close> is \<open>shutil.copy2\<close>: the file system after the call, and
    whether the call returned (\<open>True\<close>) or raised (\<open>False\<close>);
  \<^item> \<open>unlink fs p\<close> is the file system after \<open>Path(p).unlink()\<close>, whether it
    returned or raised: the code passes over the exception.
  Timestamps are written with \<open>isoformat\<close> and read back with \<open>fromisoformat\<close>, which
  gives the same \<open>datetime\<close>; \<open>timedelta(hours=h)\<close> is \<open>h\<close> times 3600000000
  microseconds. \<open>_save_cache_index\<close> swallows every exception and does not change the
  index in memory; it is left out.
\<close>

record 'fs os_lib =
  path_str :: "string \<Rightarrow> string"
  path_suffix :: "string \<Rightarrow> string"
  path_join :: "string \<Rightarrow> string \<Rightarrow> string"
  path_exists :: "'fs \<Rightarrow> string \<Rightarrow> py_exn + bool"
  copy2 :: "'fs \<Rightarrow> string \<Rightarrow> string \<Rightarrow> 'fs \<times> bool"
  unlink :: "'fs \<Rightarrow> string \<Rightarrow> 'fs"

record cache_entry =
  file_path :: string
  timestamp :: datetime
  original_path :: string

record 'fs cache_service =
  cache_duration_hours :: int
  cache_index :: "string \<rightharpoonup> cache_entry"
  files :: 'fs

definition CacheService :: "int \<Rightarrow> (string \<rightharpoonup> cache_entry) \<Rightarrow> 'fs \<Rightarrow> 'fs cache_service" where
  "CacheService hours loaded_index fs =
     \<lparr>cache_duration_hours = hours, cache_index = loaded_index, files = fs\<rparr>"

text \<open>The constructor's default argument.\<close>

definition CacheService_default :: "(string \<rightharpoonup> cache_entry) \<Rightarrow> 'fs \<Rightarrow> 'fs cache_service" where
  "CacheService_default loaded_index fs = CacheService 24 loaded_index fs"

definition get_cached_screenshot ::
  "'fs os_lib \<Rightarrow> 'fs cache_service \<Rightarrow> string \<Rightarrow> datetime \<Rightarrow>
   (py_exn + string option) \<times> 'fs cache_service" where
  "get_cached_screenshot lib cs cache_key now =
     (case cache_index cs cache_key of
        None \<Rightarrow> (Inr None, cs)
      | Some entry \<Rightarrow>
          let cached_file = file_path entry
          in case path_exists lib (files cs) cached_file of
               Inl x \<Rightarrow> (Inl x, cs)
             | Inr found \<Rightarrow>
                 if \<not> found then
                   (Inr None, cs\<lparr>cache_index := (cache_index cs)(cache_key := None)\<rparr>)
                 else
                   let cached_time = timestamp entry;
                       expiry_time = cached_time + cache_duration_hours cs * 3600000000
                   in if now > expiry_time then
                        (Inr None,
                         cs\<lparr>files := unlink lib (files cs) cached_file,
                            cache_index := (cache_index cs)(cache_key := None)\<rparr>)
                      else (Inr (Some (path_str lib cached_file)), cs))"

text \<open>
  When \<open>shutil.copy2\<close> raises, the \<open>except\<close> clause returns the source path and
  leaves the index alone.
\<close>

definition cache_screenshot ::
  "'fs os_lib \<Rightarrow> 'fs cache_service \<Rightarrow> string \<Rightarrow> string \<Rightarrow> datetime \<Rightarrow>
   string \<times> 'fs cache_service" where
  "cache_screenshot lib cs cache_key screenshot_path now =
     (let source_path = path_str lib screenshot_path;
          extension = path_suffix lib screenshot_path;
          cached_filename = cache_key @ extension;
          cached_filepath = path_join lib ''cache'' cached_filename;
          (fs1, copied) = copy2 lib (files cs) source_path cached_filepath
      in if copied then
           (cached_filepath,
            cs\<lparr>files := fs1,
               cache_index := (cache_index cs)(cache_key \<mapsto>
                 \<lparr>file_path = cached_filepath, timestamp = now,
                  original_path = source_path\<rparr>)\<rparr>)
         else (source_path, cs\<lparr>files := fs1\<rparr>))"

text \<open>
  Example values. A small file system: the set of the paths at which a file exists, for
  paths that are written as \<open>pathlib\<close> prints them and end in \<open>.png\<close>; a copy raises
  when the source is missing or is the destination. A service with a time to live of two
  hours, one screenshot on disk and an empty index; and one whose index has an entry
  for a file that is not on disk.
\<close>

definition plain_lib :: "string set os_lib" where
  "plain_lib =
     \<lparr>path_str = (\<lambda>p. p),
      path_suffix = (\<lambda>p. ''.png''),
      path_join = (\<lambda>d name. d @ ''/'' @ name),
      path_exists = (\<lambda>fs p. Inr (p \<in> fs)),
      copy2 = (\<lambda>fs src dst. if src \<in> fs \<and> src \<noteq> dst then (insert dst fs, True) else (fs, False)),
      unlink = (\<lambda>fs p. fs - {p})\<rparr>"

definition cache0 :: "string set cache_service" where
  "cache0 = CacheService 2 Map.empty {''screenshots/a.png''}"

definition cache1 :: "string set cache_service" where
  "cache1 = CacheService 2
     [''abc'' \<mapsto> \<lparr>file_path = ''cache/abc.png'', timestamp = 1000,
                   original_path = ''screenshots/a.png''\<rparr>]
     {''screenshots/a.png''}"

subsection \<open>The cache key\<close>

text \<open>
  Python's \<open>str\<close> of the values that the f-strings format: an integer in decimal, a
  Boolean, and an optional string, where \<open>None\<close> prints as the text \<open>None\<close>.
\<close>

definition digit_char :: "nat \<Rightarrow> char" where
  "digit_char n = ''0123456789'' ! (n mod 10)"

function str_nat :: "nat \<Rightarrow> string" where
  "str_nat n = (if n < 10 then [digit_char n] else str_nat (n div 10) @ [digit_char (n mod 10)])"
  by pat_completeness auto
termination
  by (relation "measure id") auto

declare str_nat.simps [simp del]

definition py_str_int :: "int \<Rightarrow> string" where
  "py_str_int i = (if i < 0 then CHR ''-'' # str_nat (nat (- i)) else str_nat (nat i))"

definition py_str_bool :: "bool \<Rightarrow> string" where
  "py_str_bool b = (if b then ''True'' else ''False'')"

definition py_str_opt :: "string option \<Rightarrow> string" where
  "py_str_opt v = (case v of None \<Rightarrow> ''None'' | Some s \<Rightarrow> s)"

text \<open>
  SHA-256 with \<open>hexdigest\<close> is a library function and an argument of the model.
  \<open>key_string\<close> is the text that \<open>generate_cache_key\<close> hashes.
\<close>

definition key_string ::
  "string \<Rightarrow> int \<Rightarrow> int \<Rightarrow> bool \<Rightarrow> string \<Rightarrow> int \<Rightarrow> int \<Rightarrow> string" where
  "key_string url width height fullpage image_format quality delay =
     url @ ''|'' @ py_str_int width @ ''|'' @ py_str_int height @ ''|'' @
     py_str_bool fullpage @ ''|'' @ image_format @ ''|'' @ py_str_int quality @ ''|'' @
     py_str_int delay"

definition generate_cache_key ::
  "(string \<Rightarrow> string) \<Rightarrow> string \<Rightarrow> int \<Rightarrow> int \<Rightarrow> bool \<Rightarrow> string \<Rightarrow> int \<Rightarrow> int \<Rightarrow> string" where
  "generate_cache_key sha256 url width height fullpage image_format quality delay =
     sha256 (key_string url width height fullpage image_format quality delay)"

text \<open>
  The parameters of a request as the \<open>screenshot\<close> route of \<open>app.py\<close> passes them to
  the cache key, after validation; an optional parameter that the request does not give
  is \<open>None\<close>.
\<close>

record capture_request =
  r_url :: string
  r_width :: int
  r_height :: int
  r_fullpage :: bool
  r_image_format :: string
  r_quality :: int
  r_delay :: int
  r_selector :: "string option"
  r_device :: "string option"
  r_user_agent :: "string option"
  r_dark_mode :: bool
  r_wait_for_selector :: "string option"
  r_block_ads :: bool
  r_scroll_page :: bool
  r_media_type :: "string option"
  r_timezone :: "string option"

definition cache_params :: "capture_request \<Rightarrow> string" where
  "cache_params r =
     py_str_opt (r_selector r) @ ''|'' @ py_str_opt (r_device r) @ ''|'' @
     py_str_opt (r_user_agent r) @ ''|'' @ py_str_bool (r_dark_mode r) @ ''|'' @
     py_str_opt (r_wait_for_selector r) @ ''|'' @ py_str_bool (r_block_ads r) @ ''|'' @
     py_str_bool (r_scroll_page r) @ ''|'' @ py_str_opt (r_media_type r) @ ''|'' @
     py_str_opt (r_timezone r)"

text \<open>The text that the route hashes for the final key, and the final key.\<close>

definition extended_key_string :: "(string \<Rightarrow> string) \<Rightarrow> capture_request \<Rightarrow> string" where
  "extended_key_string sha256 r =
     generate_cache_key sha256 (r_url r) (r_width r) (r_height r) (r_fullpage r)
       (r_image_format r) (r_quality r) (r_delay r) @ ''|'' @ cache_params r"

definition screenshot_cache_key :: "(string \<Rightarrow> string) \<Rightarrow> capture_request \<Rightarrow> string" where
  "screenshot_cache_key sha256 r = sha256 (extended_key_string sha256 r)"

text \<open>An example request: the defaults of the route for a page, with no selector.\<close>

definition request0 :: capture_request where
  "request0 =
     \<lparr>r_url = ''https://example.com'', r_width = 1920, r_height = 1080, r_fullpage = False,
      r_image_format = ''png'', r_quality = 80, r_delay = 0, r_selector = None,
      r_device = None, r_user_agent = None, r_dark_mode = False,
      r_wait_for_selector = None, r_block_ads = False, r_scroll_page = False,
      r_media_type = None, r_timezone = None\<rparr>"

section \<open>The rate limiter: pruning and admission\<close>

lemma popleft_while_dropWhile: "popleft_while c ts = dropWhile (\<lambda>t. t < c) ts"
  by (induction ts) auto

lemma filter_dropWhile_older:
  "c' \<le> c \<Longrightarrow> filter (\<lambda>t. c \<le> t) (dropWhile (\<lambda>t. t < c') w) = filter (\<lambda>t. c \<le> (t::real)) w"
  by (induction w) auto

lemma length_filter_le_dropWhile:
  "length (filter (\<lambda>t. c \<le> (t::real)) w) \<le> length (dropWhile (\<lambda>t. t < c) w)"
  by (induction w) (auto simp: le_SucI)

lemma dd_get_upd: "dd_get (m(k \<mapsto> w)) k' = (if k' = k then w else dd_get m k')"
  by (simp add: dd_get_def)

lemma cleanup_limits [simp]:
  "requests_per_minute (cleanup_old_requests rl k t) = requests_per_minute rl"
  "requests_per_hour (cleanup_old_requests rl k t) = requests_per_hour rl"
  by (simp_all add: cleanup_old_requests_def Let_def)

lemma cleanup_minute:
  "dd_get (minute_requests (cleanup_old_requests rl k' t)) k =
     (if k = k' then dropWhile (\<lambda>x. x < t - 60) (dd_get (minute_requests rl) k)
      else dd_get (minute_requests rl) k)"
  by (simp add: cleanup_old_requests_def Let_def dd_get_upd popleft_while_dropWhile)

lemma cleanup_hour:
  "dd_get (hour_requests (cleanup_old_requests rl k' t)) k =
     (if k = k' then dropWhile (\<lambda>x. x < t - 3600) (dd_get (hour_requests rl) k)
      else dd_get (hour_requests rl) k)"
  by (simp add: cleanup_old_requests_def Let_def dd_get_upd popleft_while_dropWhile)

lemma cleanup_recent:
  "t \<le> now \<Longrightarrow>
   filter (\<lambda>x. now - 60 \<le> x) (dd_get (minute_requests (cleanup_old_requests rl k' t)) k) =
   filter (\<lambda>x. now - 60 \<le> x) (dd_get (minute_requests rl) k)"
  by (simp add: cleanup_minute filter_dropWhile_older)

lemma check_rate_limit_eq:
  "check_rate_limit rl k now =
     (let pm = dropWhile (\<lambda>t. t < now - 60) (dd_get (minute_requests rl) k);
          ph = dropWhile (\<lambda>t. t < now - 3600) (dd_get (hour_requests rl) k);
          ok = (int (length pm) < requests_per_minute rl \<and> int (length ph) < requests_per_hour rl)
      in (ok, rl\<lparr>minute_requests := (minute_requests rl)(k \<mapsto> (if ok then pm @ [now] else pm)),
                  hour_requests := (hour_requests rl)(k \<mapsto> (if ok then ph @ [now] else ph))\<rparr>))"
  by (auto simp: check_rate_limit_def Let_def cleanup_minute cleanup_hour)
     (simp_all add: cleanup_old_requests_def popleft_while_dropWhile)

lemma check_recent:
  assumes "t \<le> now"
  shows "filter (\<lambda>x. now - 60 \<le> x) (dd_get (minute_requests (snd (check_rate_limit rl k' t))) k) =
         filter (\<lambda>x. now - 60 \<le> x) (dd_get (minute_requests rl) k) @
           (if k' = k \<and> fst (check_rate_limit rl k' t) \<and> now - 60 \<le> t then [t] else [])"
  using assms by (auto simp: check_rate_limit_eq Let_def dd_get_upd filter_dropWhile_older)

lemma check_limits [simp]:
  "requests_per_minute (snd (check_rate_limit rl k t)) = requests_per_minute rl"
  by (simp add: check_rate_limit_eq Let_def)

lemma retry_after_state: "snd (get_retry_after rl k t) = cleanup_old_requests rl k t"
  by (simp add: get_retry_after_def Let_def split: sum.splits)

lemma remaining_state: "snd (get_remaining_requests rl k t) = cleanup_old_requests rl k t"
  by (simp add: get_remaining_requests_def Let_def)

lemma run_calls_Check:
  "run_calls rl (Check k t # cs) =
     ((k, t, fst (check_rate_limit rl k t)) # fst (run_calls (snd (check_rate_limit rl k t)) cs),
      snd (run_calls (snd (check_rate_limit rl k t)) cs))"
  by (simp add: split_beta)

lemma run_calls_limits: "requests_per_minute (snd (run_calls rl cs)) = requests_per_minute rl"
proof (induction cs arbitrary: rl)
  case Nil
  show ?case by simp
next
  case (Cons c cs)
  show ?case
    by (cases c)
       (simp_all add: run_calls_Check Cons.IH retry_after_state remaining_state
          del: run_calls.simps(2))
qed

lemma run_calls_recent:
  "\<forall>c \<in> set cs. call_time c \<le> now \<Longrightarrow>
   length (filter (\<lambda>x. now - 60 \<le> x) (dd_get (minute_requests (snd (run_calls rl cs))) k)) =
   length (filter (\<lambda>x. now - 60 \<le> x) (dd_get (minute_requests rl) k)) +
     admitted_since k (now - 60) (fst (run_calls rl cs))"
proof (induction cs arbitrary: rl)
  case Nil
  show ?case by (simp add: admitted_since_def)
next
  case (Cons c cs)
  then have le: "call_time c \<le> now" and rest: "\<forall>c \<in> set cs. call_time c \<le> now"
    by simp_all
  note IH = Cons.IH [OF rest]
  show ?case
  proof (cases c)
    case (Check k' t)
    with le have "t \<le> now" by simp
    then show ?thesis
      unfolding Check run_calls_Check
      by (cases "k' = k") (simp_all add: IH check_recent admitted_since_def)
  next
    case (RetryAfter k' t)
    with le have "t \<le> now" by simp
    then show ?thesis
      unfolding RetryAfter by (simp add: IH retry_after_state cleanup_recent)
  next
    case (Remaining k' t)
    with le have "t \<le> now" by simp
    then show ?thesis
      unfolding Remaining by (simp add: IH remaining_state cleanup_recent)
  qed
qed

lemma denied_after_limit:
  assumes "\<forall>c \<in> set cs. call_time c \<le> now"
    and "requests_per_minute rl \<le> int (admitted_since k (now - 60) (fst (run_calls rl cs)))"
  shows "\<not> fst (check_rate_limit (snd (run_calls rl cs)) k now)"
proof -
  let ?w = "dd_get (minute_requests (snd (run_calls rl cs))) k"
  have "admitted_since k (now - 60) (fst (run_calls rl cs)) \<le> length (filter (\<lambda>x. now - 60 \<le> x) ?w)"
    using run_calls_recent [OF assms(1), of rl k] by simp
  also have "\<dots> \<le> length (dropWhile (\<lambda>t. t < now - 60) ?w)"
    by (rule length_filter_le_dropWhile)
  finally show ?thesis using assms(2)
    by (simp add: check_rate_limit_eq Let_def run_calls_limits)
qed

text \<open>
  Claim C1. \<open>check_rate_limit\<close> first drops from the front of the key's minute window
  every timestamp older than \<open>now - 60\<close> and from the front of its hour window every
  timestamp older than \<open>now - 3600\<close>; it answers \<open>True\<close> exactly when both pruned windows
  are shorter than their limits, and exactly then appends \<open>now\<close> to both windows (a
  denied call leaves the pruned windows as they are). The default limits are 10 and 60.
  After any run of calls whose clock readings are at most \<open>now\<close>, if at least
  \<open>requests_per_minute\<close> requests of the key were admitted at times not before
  \<open>now - 60\<close>, the check at \<open>now\<close> is denied.
\<close>

theorem check_rate_limit_admission:
  "check_rate_limit rl k now =
     (let pm = dropWhile (\<lambda>t. t < now - 60) (dd_get (minute_requests rl) k);
          ph = dropWhile (\<lambda>t. t < now - 3600) (dd_get (hour_requests rl) k);
          ok = (int (length pm) < requests_per_minute rl \<and> int (length ph) < requests_per_hour rl)
      in (ok, rl\<lparr>minute_requests := (minute_requests rl)(k \<mapsto> (if ok then pm @ [now] else pm)),
                  hour_requests := (hour_requests rl)(k \<mapsto> (if ok then ph @ [now] else ph))\<rparr>))
   \<and> requests_per_minute RateLimiter_default = 10
   \<and> requests_per_hour RateLimiter_default = 60
   \<and> ((\<forall>c \<in> set cs. call_time c \<le> now) \<and>
        requests_per_minute rl \<le> int (admitted_since k (now - 60) (fst (run_calls rl cs)))
        \<longrightarrow> \<not> fst (check_rate_limit (snd (run_calls rl cs)) k now))"
proof (intro conjI impI)
  show "requests_per_minute RateLimiter_default = 10"
    by (simp add: RateLimiter_default_def RateLimiter_def)
  show "requests_per_hour RateLimiter_default = 60"
    by (simp add: RateLimiter_default_def RateLimiter_def)
next
  assume "(\<forall>c \<in> set cs. call_time c \<le> now) \<and>
        requests_per_minute rl \<le> int (admitted_since k (now - 60) (fst (run_calls rl cs)))"
  then show "\<not> fst (check_rate_limit (snd (run_calls rl cs)) k now)"
    using denied_after_limit [of cs now rl k] by blast
qed (rule check_rate_limit_eq)


lemma two_requests_answers:
  "fst (run_calls (RateLimiter 2 60) two_requests) =
     [(''k1'', 0, True), (''k2'', 1, True), (''k1'', 5, True)]"
  by (simp add: two_requests_def RateLimiter_def check_rate_limit_eq
      Let_def dd_get_def retry_after_state cleanup_old_requests_def)

theorem check_rate_limit_admission_witness:
  "list_all (\<lambda>c. call_time c \<le> 30) two_requests \<and>
   requests_per_minute (RateLimiter 2 60) \<le>
     int (admitted_since ''k1'' (30 - 60) (fst (run_calls (RateLimiter 2 60) two_requests))) \<and>
   \<not> fst (check_rate_limit (snd (run_calls (RateLimiter 2 60) two_requests)) ''k1'' 30)"
proof -
  have h1: "\<forall>c \<in> set two_requests. call_time c \<le> 30"
    by (simp add: two_requests_def)
  have h2: "requests_per_minute (RateLimiter 2 60) \<le>
     int (admitted_since ''k1'' (30 - 60) (fst (run_calls (RateLimiter 2 60) two_requests)))"
    unfolding two_requests_answers
    by (simp add: admitted_since_def RateLimiter_def)
  show ?thesis
    using h1 h2 check_rate_limit_admission [of "RateLimiter 2 60" "''k1''" 30 two_requests]
    unfolding list_all_iff by blast
qed

section \<open>The rate limiter: retry delay\<close>

lemma replicate10: "replicate 10 x = [x,x,x,x,x,x,x,x,x,x]"
  by (simp add: numeral_eq_Suc)

lemma dropWhile_hd: "dropWhile P xs \<noteq> [] \<Longrightarrow> \<not> P (hd (dropWhile P xs))"
  by (simp add: hd_dropWhile)

lemma py_int_nonneg: "0 \<le> x \<Longrightarrow> py_int x = \<lfloor>x\<rfloor>"
  by (simp add: py_int_def)

lemma retry_minute:
  assumes "pm = dropWhile (\<lambda>t. t < now - 60) (dd_get (minute_requests rl) k)"
    and "requests_per_minute rl \<le> int (length pm)" and "0 < requests_per_minute rl"
  shows "fst (get_retry_after rl k now) = Inr (\<lfloor>60 - (now - hd pm)\<rfloor> + 1)"
proof -
  from assms(2,3) have ne: "pm \<noteq> []" by auto
  then obtain t ts where pm: "pm = t # ts" by (cases pm) auto
  have "\<not> hd pm < now - 60"
    using ne dropWhile_hd [of "\<lambda>t. t < now - 60" "dd_get (minute_requests rl) k"] assms(1) by simp
  then have "0 \<le> 60 - (now - t)" using pm by simp
  then show ?thesis
    using assms(1,2) pm
    by (simp add: get_retry_after_def Let_def cleanup_minute deque_first_def py_int_nonneg
        flip: assms(1))
qed

lemma retry_hour:
  assumes "ph = dropWhile (\<lambda>t. t < now - 3600) (dd_get (hour_requests rl) k)"
    and "requests_per_hour rl \<le> int (length ph)" and "0 < requests_per_hour rl"
    and "\<not> requests_per_minute rl \<le>
           int (length (dropWhile (\<lambda>t. t < now - 60) (dd_get (minute_requests rl) k)))"
  shows "fst (get_retry_after rl k now) = Inr (\<lfloor>3600 - (now - hd ph)\<rfloor> + 1)"
proof -
  from assms(2,3) have ne: "ph \<noteq> []" by auto
  then obtain t ts where ph: "ph = t # ts" by (cases ph) auto
  have "\<not> hd ph < now - 3600"
    using ne dropWhile_hd [of "\<lambda>t. t < now - 3600" "dd_get (hour_requests rl) k"] assms(1) by simp
  then have "0 \<le> 3600 - (now - t)" using ph by simp
  then show ?thesis
    using assms(1,2,4) ph
    by (simp add: get_retry_after_def Let_def cleanup_minute cleanup_hour deque_first_def
        py_int_nonneg flip: assms(1))
qed

lemma retry_none:
  assumes "\<not> requests_per_minute rl \<le>
           int (length (dropWhile (\<lambda>t. t < now - 60) (dd_get (minute_requests rl) k)))"
    and "\<not> requests_per_hour rl \<le>
           int (length (dropWhile (\<lambda>t. t < now - 3600) (dd_get (hour_requests rl) k)))"
  shows "fst (get_retry_after rl k now) = Inr 0"
  using assms by (simp add: get_retry_after_def Let_def cleanup_minute cleanup_hour)

text \<open>
  Claim C4, as the code has it. With positive limits: \<open>get_retry_after\<close> returns 0 when
  neither pruned window is at capacity; when only the minute window is at capacity it
  returns the floor of the time until the window's oldest timestamp is 60 seconds old,
  plus one; when only the hour window is at capacity, the floor of the time until its
  oldest timestamp is 3600 seconds old, plus one.
\<close>

theorem get_retry_after_floor:
  "0 < requests_per_minute rl \<Longrightarrow> 0 < requests_per_hour rl \<Longrightarrow>
   (let pm = dropWhile (\<lambda>t. t < now - 60) (dd_get (minute_requests rl) k);
        ph = dropWhile (\<lambda>t. t < now - 3600) (dd_get (hour_requests rl) k);
        minute_full = (requests_per_minute rl \<le> int (length pm));
        hour_full = (requests_per_hour rl \<le> int (length ph))
    in (\<not> minute_full \<and> \<not> hour_full \<longrightarrow> fst (get_retry_after rl k now) = Inr 0) \<and>
       (minute_full \<and> \<not> hour_full \<longrightarrow>
          fst (get_retry_after rl k now) = Inr (\<lfloor>60 - (now - hd pm)\<rfloor> + 1)) \<and>
       (hour_full \<and> \<not> minute_full \<longrightarrow>
          fst (get_retry_after rl k now) = Inr (\<lfloor>3600 - (now - hd ph)\<rfloor> + 1)))"
  unfolding Let_def
  by (intro conjI impI) (simp_all add: retry_none retry_minute retry_hour)

theorem get_retry_after_floor_witness:
  "0 < requests_per_minute full_minute \<and> 0 < requests_per_hour full_minute \<and>
   fst (get_retry_after full_minute ''k1'' (1/2)) = Inr 60 \<and>
   fst (get_retry_after full_hour ''k1'' (401/2)) = Inr 3400 \<and>
   fst (get_retry_after RateLimiter_default ''k1'' 5) = Inr 0"
proof -
  have h1: "0 < requests_per_minute full_minute" and h2: "0 < requests_per_hour full_minute"
    by (simp_all add: full_minute_def RateLimiter_default_def RateLimiter_def)
  have h3: "0 < requests_per_minute full_hour" and h4: "0 < requests_per_hour full_hour"
    by (simp_all add: full_hour_def RateLimiter_def)
  have h5: "0 < requests_per_minute RateLimiter_default"
    and h6: "0 < requests_per_hour RateLimiter_default"
    by (simp_all add: RateLimiter_default_def RateLimiter_def)
  have a: "fst (get_retry_after full_minute ''k1'' (1/2)) = Inr 60"
    using get_retry_after_floor [OF h1 h2, of "1/2" "''k1''"]
    by (simp add: Let_def full_minute_def RateLimiter_default_def RateLimiter_def dd_get_def
        replicate10)
  have b: "fst (get_retry_after full_hour ''k1'' (401/2)) = Inr 3400"
    using get_retry_after_floor [OF h3 h4, of "401/2" "''k1''"]
    by (simp add: Let_def full_hour_def RateLimiter_def dd_get_def)
  have c: "fst (get_retry_after RateLimiter_default ''k1'' 5) = Inr 0"
    using get_retry_after_floor [OF h5 h6, of 5 "''k1''"]
    by (simp add: Let_def RateLimiter_default_def RateLimiter_def dd_get_def)
  show ?thesis
    using h1 h2 a b c by simp
qed

text \<open>
  The claim's wording fails where the wait is not a whole number of seconds: ten
  requests at time 0 and a call at time 1/2 give 60, and ceiling plus one is 61.
\<close>

theorem get_retry_after_counterexample:
  "fst (get_retry_after full_minute ''k1'' (1/2)) = Inr 60 \<and>
   claimed_retry_after full_minute ''k1'' (1/2) = 61"
  by (simp add: get_retry_after_def claimed_retry_after_def full_minute_def
      RateLimiter_default_def RateLimiter_def cleanup_old_requests_def dd_get_def
      deque_first_def py_int_def Let_def replicate10)

text \<open>
  With both windows at capacity the minute window alone decides the answer: here the
  answer is 55 seconds, the hour window stays full for 3004 seconds, and a request 55
  seconds later is still denied.
\<close>

lemma get_retry_after_both_full:
  "fst (get_retry_after both_full ''k1'' 3596) = Inr 55 \<and>
   claimed_retry_after both_full ''k1'' 3596 = 3005 \<and>
   \<not> fst (check_rate_limit both_full ''k1'' (3596 + 55))"
  by (simp add: get_retry_after_def claimed_retry_after_def both_full_def check_rate_limit_eq
      RateLimiter_def cleanup_old_requests_def dd_get_def deque_first_def py_int_def Let_def)

section \<open>Webhook delivery: attempts, backoff and the final mark\<close>


lemma attempt_events_Cons:
  "attempt_events post m (a # atts) =
     Post a # (if post a = Raises \<and> int a < m - 1 then [Sleep (2 ^ a)] else []) @
       attempt_events post m atts"
  by (simp add: attempt_events_def)


lemma send_attempts_present:
  assumes "jobs jid = Some j"
  shows "send_attempts post jobs jid m now atts =
     (case first_200 post atts of
        None \<Rightarrow> (attempt_events post m atts, None)
      | Some i \<Rightarrow>
          (attempt_events post m (takeWhile (\<lambda>a. post a \<noteq> Status 200) atts @ [i]),
           Some (jobs(jid \<mapsto> j\<lparr>webhook_delivered := Some True,
                               webhook_delivered_at := Some now\<rparr>))))"
proof (induction atts)
  case Nil
  show ?case by (simp add: attempt_events_def)
next
  case (Cons a atts)
  show ?case
  proof (cases "post a")
    case (Status code)
    then show ?thesis
      using assms Cons.IH
      by (cases "code = 200")
         (auto simp: attempt_events_Cons attempt_events_def split: option.splits)
  next
    case Raises
    then show ?thesis
      using assms Cons.IH
      by (auto simp: attempt_events_Cons split: option.splits)
  qed
qed













text \<open>
  The sleep stands in the \<open>except\<close> clause only. A target that answers every attempt
  with status 500 is tried three times with no sleep in between, where a target that
  cannot be reached is tried with sleeps of 1 and 2 seconds.
\<close>

lemma send_webhook_response_trace:
  "fst (send_webhook_default (\<lambda>i. Status 500) [''j1'' \<mapsto> job1] ''j1'' 5000) =
     [Post 0, Post 1, Post 2]"
proof -
  have up: "[0..<3] = [0, 1, 2]" by (simp add: upt_rec)
  show ?thesis
    by (simp add: send_webhook_default_def send_webhook_def up)
qed

section \<open>Jobs: status updates, the worker and webhook triggering\<close>

lemma update_known_table:
  assumes "jobs jid = Some j"
  shows "\<exists>j'. fst (snd (update_job_status jobs jid st res err now)) = jobs(jid \<mapsto> j') \<and>
              status j' = st \<and> webhook_url j' = webhook_url j"
  using assms by (auto simp: update_job_status_def Let_def)

lemma update_known_calls:
  assumes "jobs jid = Some j"
  shows "list_all (\<lambda>c. call_job_id c = jid) (snd (snd (update_job_status jobs jid st res err now)))"
    and "length (snd (snd (update_job_status jobs jid st res err now))) =
           (if (st = ''completed'' \<or> st = ''failed'') \<and> truthy (webhook_url j) then 1 else 0)"
  using assms by (auto simp: update_job_status_def Let_def trigger_webhook_def)

lemma update_known_ok:
  "jobs jid = Some j \<Longrightarrow> fst (update_job_status jobs jid st res err now)"
  by (simp add: update_job_status_def Let_def)

lemma send_attempts_absent:
  "jobs jid = None \<Longrightarrow> snd (send_attempts post jobs jid m now atts) = None"
  by (induction atts) (auto simp: Let_def split_beta split: response.splits)

lemma send_webhook_table:
  assumes "send_webhook post jobs jid m now = (evs, Inr jobs1)"
  shows "\<exists>j j'. jobs jid = Some j \<and> jobs1 = jobs(jid \<mapsto> j') \<and>
                status j' = status j \<and> webhook_url j' = webhook_url j"
proof (cases "jobs jid")
  case None
  then show ?thesis
    using assms send_attempts_absent [where jobs = jobs and jid = jid and post = post and m = m
        and now = now and atts = "[0..<nat m]"]
    by (auto simp: send_webhook_def split: prod.splits option.splits)
next
  case (Some j)
  then show ?thesis
    using assms
    by (auto simp: send_webhook_def send_attempts_present split: prod.splits option.splits)
qed


lemma calls_for_append: "calls_for k (xs @ ys) = calls_for k xs @ calls_for k ys"
  by (simp add: calls_for_def)

lemma calls_for_same: "list_all (\<lambda>c. call_job_id c = jid) cs \<Longrightarrow> calls_for jid cs = cs"
  by (induction cs) (simp_all add: calls_for_def)

lemma calls_for_other:
  "list_all (\<lambda>c. call_job_id c = jid) cs \<Longrightarrow> k \<noteq> jid \<Longrightarrow> calls_for k cs = []"
  by (induction cs) (simp_all add: calls_for_def)

lemma sys_inv_initial: "sys_inv (initial jobs0)"
  by (simp add: sys_inv_def worker_ok_def initial_def calls_for_def)

lemma worker_ok_other:
  assumes "worker_ok s k"
    and "sys_workers s' k = sys_workers s k"
    and "sys_jobs s' k = sys_jobs s k"
    and "calls_for k (sys_dispatched s') = calls_for k (sys_dispatched s)"
  shows "worker_ok s' k"
  using assms(1) unfolding worker_ok_def assms(2,3,4) .

lemma worker_ok_same:
  assumes "worker_ok s k"
    and "sys_workers s' k = sys_workers s k"
    and "calls_for k (sys_dispatched s') = calls_for k (sys_dispatched s)"
    and "\<And>j. sys_jobs s k = Some j \<Longrightarrow>
           \<exists>j'. sys_jobs s' k = Some j' \<and> status j' = status j \<and>
                webhook_url j' = webhook_url j"
  shows "worker_ok s' k"
proof (cases "sys_workers s k")
  case None
  with assms(1,2,3) show ?thesis by (simp add: worker_ok_def)
next
  case (Some pc)
  with assms(1) obtain j where j: "sys_jobs s k = Some j"
    and ok: "status j \<in> set (pc_status pc)"
      "length (calls_for k (sys_dispatched s)) =
         (if pc = Finished \<and> truthy (webhook_url j) then 1 else 0)"
    by (auto simp: worker_ok_def split: option.splits)
  from assms(4) [OF j] obtain j' where "sys_jobs s' k = Some j'"
    "status j' = status j" "webhook_url j' = webhook_url j" by blast
  with Some ok assms(2,3) show ?thesis by (simp add: worker_ok_def)
qed

lemma sys_inv_started:
  assumes inv: "sys_inv s"
    and w: "sys_workers s jid = Some pc0" and pc0: "pc0 \<noteq> Finished"
    and st: "st \<in> set (pc_status pc)"
    and fin: "pc = Finished \<longleftrightarrow> (st = ''completed'' \<or> st = ''failed'')"
  shows "sys_inv (started s jid pc (update_job_status (sys_jobs s) jid st res err now))"
proof -
  let ?r = "update_job_status (sys_jobs s) jid st res err now"
  let ?s' = "started s jid pc ?r"
  from inv have ok: "worker_ok s jid" by (simp add: sys_inv_def)
  with w pc0 obtain j where j: "sys_jobs s jid = Some j"
    and none: "calls_for jid (sys_dispatched s) = []"
    by (auto simp: worker_ok_def split: option.splits)
  obtain j' where tab: "fst (snd ?r) = (sys_jobs s)(jid \<mapsto> j')"
    and st': "status j' = st" and url: "webhook_url j' = webhook_url j"
    using update_known_table [where jobs = "sys_jobs s" and jid = jid and j = j] j by blast
  have all: "list_all (\<lambda>c. call_job_id c = jid) (snd (snd ?r))"
    and len: "length (snd (snd ?r)) =
           (if (st = ''completed'' \<or> st = ''failed'') \<and> truthy (webhook_url j) then 1 else 0)"
    using update_known_calls [where jobs = "sys_jobs s" and jid = jid and j = j] j by blast+
  have jobs': "sys_jobs ?s' = (sys_jobs s)(jid \<mapsto> j')"
    and workers': "sys_workers ?s' = (sys_workers s)(jid \<mapsto> pc)"
    and disp': "sys_dispatched ?s' = sys_dispatched s @ snd (snd ?r)"
    using tab by (simp_all add: started_def split_beta)
  have "worker_ok ?s' k" for k
  proof (cases "k = jid")
    case True
    have "length (calls_for jid (sys_dispatched ?s')) =
            (if pc = Finished \<and> truthy (webhook_url j') then 1 else 0)"
      using none len fin url by (simp add: disp' calls_for_append calls_for_same [OF all])
    then show ?thesis
      using True st st' by (simp add: worker_ok_def jobs' workers')
  next
    case False
    from inv have "worker_ok s k" by (simp add: sys_inv_def)
    then show ?thesis
      by (rule worker_ok_other)
         (use False in \<open>simp_all add: jobs' workers' disp' calls_for_append
            calls_for_other [OF all]\<close>)
  qed
  then show ?thesis by (simp add: sys_inv_def)
qed

lemma sys_inv_step:
  assumes inv: "sys_inv s" and step: "apply_event s e = Some s'"
  shows "sys_inv s'"
proof (cases e)
  case (Submit uuid jtype ps url secret now1 now2)
  with step have fresh: "sys_jobs s uuid = None" "sys_workers s uuid = None"
    and s': "s' = s\<lparr>sys_jobs := snd (create_job (sys_jobs s) uuid jtype ps url secret now1 now2),
                     sys_workers := (sys_workers s)(uuid \<mapsto> Spawned)\<rparr>"
    by (auto split: if_splits)
  have "worker_ok s' k" for k
  proof (cases "k = uuid")
    case True
    from inv have "worker_ok s uuid" by (simp add: sys_inv_def)
    with fresh have "calls_for uuid (sys_dispatched s) = []"
      by (simp add: worker_ok_def)
    then show ?thesis
      using True by (simp add: worker_ok_def s' create_job_def)
  next
    case False
    from inv have "worker_ok s k" by (simp add: sys_inv_def)
    then show ?thesis
      by (rule worker_ok_other) (use False in \<open>simp_all add: s' create_job_def\<close>)
  qed
  then show ?thesis by (simp add: sys_inv_def)
next
  case (Begin jid now)
  with step have w: "sys_workers s jid = Some Spawned"
    and s': "s' = started s jid Executing (worker_begin (sys_jobs s) jid now)"
    by (auto split: if_splits)
  show ?thesis
    unfolding s' worker_begin_def
    by (rule sys_inv_started [OF inv w]) simp_all
next
  case (End jid outcome now)
  with step have w: "sys_workers s jid = Some Executing"
    and s': "s' = started s jid Finished (worker_end (sys_jobs s) jid outcome now)"
    by (auto split: if_splits)
  show ?thesis
  proof (cases outcome)
    case (Inl e)
    show ?thesis
      unfolding s' worker_end_def Inl sum.case
      by (rule sys_inv_started [OF inv w]) simp_all
  next
    case (Inr res)
    show ?thesis
      unfolding s' worker_end_def Inr sum.case
      by (rule sys_inv_started [OF inv w]) simp_all
  qed
next
  case (Deliver n post now)
  let ?c = "sys_pending s ! n"
  let ?rest = "take n (sys_pending s) @ drop (Suc n) (sys_pending s)"
  obtain evs r where sw: "send_webhook_default post (sys_jobs s) (call_job_id ?c) now = (evs, r)"
    by (cases "send_webhook_default post (sys_jobs s) (call_job_id ?c) now")
  show ?thesis
  proof (cases r)
    case (Inl x)
    with step Deliver sw have "s' = s\<lparr>sys_pending := ?rest\<rparr>"
      by (auto simp: Let_def split: if_splits)
    have "worker_ok s' k" for k
    proof -
      from inv have "worker_ok s k" by (simp add: sys_inv_def)
      then show ?thesis
        by (rule worker_ok_other) (simp_all add: \<open>s' = _\<close>)
    qed
    then show ?thesis by (simp add: sys_inv_def)
  next
    case (Inr jobs1)
    with step Deliver sw have s': "s' = s\<lparr>sys_jobs := jobs1, sys_pending := ?rest\<rparr>"
      by (auto simp: Let_def split: if_splits)
    from sw Inr obtain j j' where j: "sys_jobs s (call_job_id ?c) = Some j"
      and tab: "jobs1 = (sys_jobs s)(call_job_id ?c \<mapsto> j')"
      and same: "status j' = status j" "webhook_url j' = webhook_url j"
      using send_webhook_table [of post "sys_jobs s" "call_job_id ?c" 3 now evs jobs1]
      by (auto simp: send_webhook_default_def)
    have "worker_ok s' k" for k
    proof -
      from inv have "worker_ok s k" by (simp add: sys_inv_def)
      then show ?thesis
        by (rule worker_ok_same) (use j same in \<open>auto simp: s' tab\<close>)
    qed
    then show ?thesis by (simp add: sys_inv_def)
  qed
qed

lemma sys_inv_run: "sys_inv s \<Longrightarrow> run s es = Some s' \<Longrightarrow> sys_inv s'"
  by (induction es arbitrary: s) (auto split: option.splits dest: sys_inv_step)


lemma sys_jobs_step:
  assumes inv: "sys_inv s" and step: "apply_event s e = Some s'"
    and j: "sys_jobs s jid = Some j"
  shows "\<exists>j'. sys_jobs s' jid = Some j' \<and> advances (status j) (status j')"
proof (cases e)
  case (Submit uuid jtype ps url secret now1 now2)
  with step j show ?thesis
    by (auto simp: create_job_def advances_def split: if_splits)
next
  case (Begin k now)
  with step have w: "sys_workers s k = Some Spawned"
    and s': "s' = started s k Executing (update_job_status (sys_jobs s) k ''processing'' None None now)"
    by (auto simp: worker_begin_def split: if_splits)
  from inv have "worker_ok s k" by (simp add: sys_inv_def)
  with w obtain jk where jk: "sys_jobs s k = Some jk" and st: "status jk = ''pending''"
    by (auto simp: worker_ok_def split: option.splits)
  obtain j' where tab: "fst (snd (update_job_status (sys_jobs s) k ''processing'' None None now)) =
      (sys_jobs s)(k \<mapsto> j')" and st': "status j' = ''processing''"
    using update_known_table [where jobs = "sys_jobs s" and jid = k and j = jk] jk by blast
  have "sys_jobs s' = (sys_jobs s)(k \<mapsto> j')"
    using tab by (simp add: s' started_def split_beta)
  then show ?thesis
    using j jk st st' by (cases "jid = k") (simp_all add: advances_def)
next
  case (End k outcome now)
  with step have w: "sys_workers s k = Some Executing"
    and s': "s' = started s k Finished (worker_end (sys_jobs s) k outcome now)"
    by (auto split: if_splits)
  from inv have "worker_ok s k" by (simp add: sys_inv_def)
  with w obtain jk where jk: "sys_jobs s k = Some jk" and st: "status jk = ''processing''"
    by (auto simp: worker_ok_def split: option.splits)
  have "\<exists>j'. fst (snd (worker_end (sys_jobs s) k outcome now)) = (sys_jobs s)(k \<mapsto> j') \<and>
             (status j' = ''completed'' \<or> status j' = ''failed'')"
  proof (cases outcome)
    case (Inl e)
    then show ?thesis
      using update_known_table [where jobs = "sys_jobs s" and jid = k and j = jk
          and st = "''failed''" and res = None and err = "Some e" and now = now] jk
      by (auto simp: worker_end_def)
  next
    case (Inr res)
    then show ?thesis
      using update_known_table [where jobs = "sys_jobs s" and jid = k and j = jk
          and st = "''completed''" and res = res and err = None and now = now] jk
      by (auto simp: worker_end_def)
  qed
  then obtain j' where tab: "fst (snd (worker_end (sys_jobs s) k outcome now)) = (sys_jobs s)(k \<mapsto> j')"
    and st': "status j' = ''completed'' \<or> status j' = ''failed''" by blast
  have "sys_jobs s' = (sys_jobs s)(k \<mapsto> j')"
    using tab by (simp add: s' started_def split_beta)
  then show ?thesis
    using j jk st st' by (cases "jid = k") (auto simp: advances_def)
next
  case (Deliver n post now)
  let ?c = "sys_pending s ! n"
  obtain evs r where sw: "send_webhook_default post (sys_jobs s) (call_job_id ?c) now = (evs, r)"
    by (cases "send_webhook_default post (sys_jobs s) (call_job_id ?c) now")
  show ?thesis
  proof (cases r)
    case (Inl x)
    with step Deliver sw have "sys_jobs s' = sys_jobs s"
      by (auto simp: Let_def split: if_splits)
    with j show ?thesis by (simp add: advances_def)
  next
    case (Inr jobs1)
    with step Deliver sw have s': "sys_jobs s' = jobs1"
      by (auto simp: Let_def split: if_splits)
    from sw Inr obtain jc j' where jc: "sys_jobs s (call_job_id ?c) = Some jc"
      and tab: "jobs1 = (sys_jobs s)(call_job_id ?c \<mapsto> j')"
      and same: "status j' = status jc"
      using send_webhook_table [of post "sys_jobs s" "call_job_id ?c" 3 now evs jobs1]
      by (auto simp: send_webhook_default_def)
    show ?thesis
      using j jc same by (cases "jid = call_job_id ?c") (simp_all add: s' tab advances_def)
  qed
qed

text \<open>
  Claim C2, as the code has it. In every state the service reaches from start-up by
  submissions, worker steps and webhook deliveries, each further step leaves the status
  of every job as it is or moves it one step along pending, processing, then completed
  or failed; a job that is completed or failed keeps its status. The order rests on the
  one worker each job has: \<open>update_job_status\<close> itself stores whatever status it is
  given.
\<close>

theorem job_status_advances:
  "run (initial jobs0) es = Some s \<Longrightarrow> apply_event s e = Some s' \<Longrightarrow>
   sys_jobs s jid = Some j \<Longrightarrow>
   \<exists>j'. sys_jobs s' jid = Some j' \<and> advances (status j) (status j') \<and>
        (status j = ''completed'' \<or> status j = ''failed'' \<longrightarrow> status j' = status j)"
proof -
  assume "run (initial jobs0) es = Some s" and step: "apply_event s e = Some s'"
    and j: "sys_jobs s jid = Some j"
  then have "sys_inv s"
    using sys_inv_run [OF sys_inv_initial] by blast
  then obtain j' where "sys_jobs s' jid = Some j'" and adv: "advances (status j) (status j')"
    using sys_jobs_step [OF _ step j] by blast
  moreover have "status j' = status j" if "status j = ''completed'' \<or> status j = ''failed''"
    using that adv by (auto simp: advances_def)
  ultimately show ?thesis by blast
qed

lemma demo_run: "run (initial Map.empty) demo_events = Some demo_state"
  by (simp add: demo_events_def initial_def demo_state_def demo_job_def create_job_def
      worker_begin_def update_job_status_def started_def truthy_def Let_def)

theorem job_status_advances_witness:
  "run (initial Map.empty) demo_events = Some demo_state \<and>
   apply_event demo_state demo_end \<noteq> None \<and>
   sys_jobs demo_state ''u1'' = Some demo_job \<and>
   status demo_job = ''processing'' \<and>
   status (the (sys_jobs (the (apply_event demo_state demo_end)) ''u1'')) = ''completed''"
proof -
  have a: "apply_event demo_state demo_end = Some (the (apply_event demo_state demo_end))"
    by (simp add: demo_state_def demo_end_def)
  have b: "sys_jobs demo_state ''u1'' = Some demo_job"
    by (simp add: demo_state_def)
  have c: "status (the (sys_jobs (the (apply_event demo_state demo_end)) ''u1'')) \<noteq> ''processing''"
    by (simp add: demo_state_def demo_end_def demo_job_def worker_end_def
        update_job_status_def started_def truthy_def Let_def)
  have d: "status (the (sys_jobs (the (apply_event demo_state demo_end)) ''u1'')) \<noteq> ''failed''"
    by (simp add: demo_state_def demo_end_def demo_job_def worker_end_def
        update_job_status_def started_def truthy_def Let_def)
  have e: "status demo_job = ''processing''" by (simp add: demo_job_def)
  from job_status_advances [OF demo_run a b]
  have "advances ''processing'' (status (the (sys_jobs (the (apply_event demo_state demo_end)) ''u1'')))"
    unfolding e by auto
  with c d have "status (the (sys_jobs (the (apply_event demo_state demo_end)) ''u1'')) = ''completed''"
    by (simp add: advances_def)
  moreover have "apply_event demo_state demo_end \<noteq> None"
    using a by (metis option.distinct(1))
  ultimately show ?thesis
    using demo_run b e by blast
qed

text \<open>
  \<open>update_job_status\<close> has no guard on the current status: called with \<open>pending\<close> on
  a completed job, it sets the job back to pending.
\<close>

theorem update_job_status_counterexample:
  "status job1 = ''completed'' \<and>
   status (the (fst (snd (update_job_status [''j1'' \<mapsto> job1] ''j1'' ''pending'' None None 3000))
                 ''j1'')) = ''pending''"
  by (simp add: job1_def update_job_status_def truthy_def Let_def)


text \<open>
  Claim C3, as the code has it. Every call of \<open>update_job_status\<close> with status
  completed or failed on a job of the table starts one webhook thread when the job has
  a webhook URL, and none otherwise; there is no record of an earlier trigger. In the
  states the service reaches from start-up, where each job has one worker and so one
  terminal update, at most one thread is started per job: none before the worker has
  finished, and exactly one for a finished job with a webhook URL.
\<close>

theorem webhook_trigger_count:
  "(jobs jid = Some j \<longrightarrow>
      length (snd (snd (update_job_status jobs jid st res err now))) =
        (if (st = ''completed'' \<or> st = ''failed'') \<and> truthy (webhook_url j) then 1 else 0)) \<and>
   (run (initial jobs0) es = Some s \<longrightarrow>
      length (calls_for jid (sys_dispatched s)) \<le> 1 \<and>
      (sys_workers s jid \<noteq> Some Finished \<longrightarrow> calls_for jid (sys_dispatched s) = []) \<and>
      (sys_workers s jid = Some Finished \<and> sys_jobs s jid = Some j \<and> truthy (webhook_url j) \<longrightarrow>
         length (calls_for jid (sys_dispatched s)) = 1))"
proof (intro conjI impI)
  assume "jobs jid = Some j"
  then show "length (snd (snd (update_job_status jobs jid st res err now))) =
        (if (st = ''completed'' \<or> st = ''failed'') \<and> truthy (webhook_url j) then 1 else 0)"
    by (rule update_known_calls(2))
next
  assume "run (initial jobs0) es = Some s"
  then have "sys_inv s"
    using sys_inv_run [OF sys_inv_initial] by blast
  then have ok: "worker_ok s jid" by (simp add: sys_inv_def)
  show "length (calls_for jid (sys_dispatched s)) \<le> 1"
    using ok by (auto simp: worker_ok_def split: option.splits)
  show "calls_for jid (sys_dispatched s) = []" if "sys_workers s jid \<noteq> Some Finished"
    using ok that by (auto simp: worker_ok_def split: option.splits)
  show "length (calls_for jid (sys_dispatched s)) = 1"
    if "sys_workers s jid = Some Finished \<and> sys_jobs s jid = Some j \<and> truthy (webhook_url j)"
    using ok that by (auto simp: worker_ok_def split: option.splits)
qed

lemma run_append:
  "run s (es @ es') = (case run s es of None \<Rightarrow> None | Some s1 \<Rightarrow> run s1 es')"
  by (induction es arbitrary: s) (simp_all split: option.splits)

lemma demo_run_end:
  "run (initial Map.empty) (demo_events @ [demo_end]) = apply_event demo_state demo_end"
  by (simp add: run_append demo_run split: option.splits)

theorem webhook_trigger_count_witness:
  "[''j1'' \<mapsto> job1] ''j1'' = Some job1 \<and>
   length (snd (snd (update_job_status [''j1'' \<mapsto> job1] ''j1'' ''failed'' None None 3000))) = 1 \<and>
   run (initial Map.empty) (demo_events @ [demo_end]) =
     Some (the (apply_event demo_state demo_end)) \<and>
   length (calls_for ''u1'' (sys_dispatched (the (apply_event demo_state demo_end)))) \<le> 1"
proof -
  have a: "[''j1'' \<mapsto> job1] ''j1'' = Some job1" by simp
  have t: "truthy (webhook_url job1)" by (simp add: job1_def truthy_def)
  have b: "run (initial Map.empty) (demo_events @ [demo_end]) =
     Some (the (apply_event demo_state demo_end))"
    unfolding demo_run_end by (simp add: demo_state_def demo_end_def)
  show ?thesis
    using a b t
      webhook_trigger_count [where jobs = "[''j1'' \<mapsto> job1]" and jid = "''j1''" and j = job1
        and st = "''failed''" and res = None and err = None and now = 3000
        and ?jobs0.0 = Map.empty and es = "[]" and s = "initial Map.empty"]
      webhook_trigger_count [where jobs = Map.empty and jid = "''u1''" and j = job1
        and ?jobs0.0 = Map.empty and es = "demo_events @ [demo_end]"
        and s = "the (apply_event demo_state demo_end)"]
    by simp
qed

text \<open>
  Two terminal updates of the same job start two webhook threads: the second update is
  not a no-operation.
\<close>

theorem webhook_trigger_counterexample:
  "length (snd (snd (update_job_status [''u1'' \<mapsto> demo_job] ''u1'' ''completed'' None None 30))) = 1 \<and>
   length (snd (snd (update_job_status
       (fst (snd (update_job_status [''u1'' \<mapsto> demo_job] ''u1'' ''completed'' None None 30)))
       ''u1'' ''completed'' None None 40))) = 1"
  by (simp add: demo_job_def update_job_status_def trigger_webhook_def truthy_def Let_def)

text \<open>
  Claim C10. For a job id that is not in the table, \<open>update_job_status\<close> returns
  \<open>False\<close>, leaves the table as it is and starts no webhook thread.
\<close>

theorem update_job_status_unknown:
  "jobs jid = None \<Longrightarrow> update_job_status jobs jid st res err now = (False, jobs, [])"
  by (simp add: update_job_status_def)

theorem update_job_status_unknown_witness:
  "[''j1'' \<mapsto> job1] ''j2'' = None \<and>
   update_job_status [''j1'' \<mapsto> job1] ''j2'' ''completed'' (Some ''a.png'') None 3000 =
     (False, [''j1'' \<mapsto> job1], [])"
proof -
  have a: "[''j1'' \<mapsto> job1] ''j2'' = None" by simp
  show ?thesis
    using a
      update_job_status_unknown [where jobs = "[''j1'' \<mapsto> job1]" and jid = "''j2''"
        and st = "''completed''" and res = "Some ''a.png''" and err = None and now = 3000]
    by simp
qed

section \<open>Webhook signatures\<close>

lemma hex_digit_ascii: "(of_char (hex_digit n) :: nat) < 128"
proof -
  have "list_all (\<lambda>c. (of_char c :: nat) < 128) ''0123456789abcdef''" by simp
  moreover have "n mod 16 < length ''0123456789abcdef''" by simp
  ultimately show ?thesis
    unfolding hex_digit_def list_all_length by blast
qed

lemma is_ascii_hexdigest: "is_ascii (hexdigest bs)"
  by (induction bs) (simp_all add: is_ascii_def hexdigest_def hex_digit_ascii)

lemma hex_digit_inj:
  assumes "i < 16" "j < 16" "hex_digit i = hex_digit j"
  shows "i = j"
proof -
  have d: "distinct ''0123456789abcdef''" by simp
  have "i < length ''0123456789abcdef''" "j < length ''0123456789abcdef''"
    using assms(1,2) by simp_all
  then show ?thesis
    using assms nth_eq_iff_index_eq [OF d, of i j] by (simp add: hex_digit_def)
qed

lemma byte_digits_inj:
  fixes b c :: "8 word"
  assumes "hex_digit (unat b div 16) = hex_digit (unat c div 16)"
    and "hex_digit (unat b mod 16) = hex_digit (unat c mod 16)"
  shows "b = c"
proof -
  have "unat b < 256" "unat c < 256"
    using unsigned_less [of b, where ?'a = nat] unsigned_less [of c, where ?'a = nat]
    by simp_all
  then have "unat b div 16 < 16" "unat c div 16 < 16" by simp_all
  then have "unat b div 16 = unat c div 16"
    using assms(1) by (rule hex_digit_inj)
  moreover have "unat b mod 16 = unat c mod 16"
    using assms(2) by (intro hex_digit_inj) simp_all
  ultimately have "unat b = unat c"
    by (metis div_mult_mod_eq)
  then show ?thesis by (simp add: word_unat_eq_iff)
qed

lemma hexdigest_inj: "hexdigest bs = hexdigest cs \<Longrightarrow> bs = cs"
proof (induction bs arbitrary: cs)
  case Nil
  then show ?case by (cases cs) (simp_all add: hexdigest_def)
next
  case (Cons b bs)
  then obtain c cs' where cs: "cs = c # cs'"
    by (cases cs) (simp_all add: hexdigest_def)
  with Cons.prems have "b = c" and "hexdigest bs = hexdigest cs'"
    by (simp_all add: hexdigest_def byte_digits_inj)
  with Cons.IH cs show ?case by simp
qed

text \<open>
  The value that \<open>verify_webhook_signature\<close> returns. It returns \<open>True\<close> on the
  signature that \<open>_generate_signature\<close> computes for the same payload and secret; on
  the signature of a payload and secret it is given with another payload or another
  secret, it returns \<open>False\<close> unless the two HMAC digests are equal. It never raises
  on such a signature. How long the comparison takes, and whether that time shows where
  two signatures differ, is not a property of the value of a function and is not
  stated in this theory.
\<close>

lemma verify_webhook_signature_value:
  "verify_webhook_signature dumps hmac p (generate_signature dumps hmac p k) k = Inr True \<and>
   verify_webhook_signature dumps hmac p' (generate_signature dumps hmac p k) k' =
     Inr (hmac k (dumps p) = hmac k' (dumps p'))"
proof -
  have "hexdigest (hmac k (dumps p)) = hexdigest (hmac k' (dumps p')) \<longleftrightarrow>
        hmac k (dumps p) = hmac k' (dumps p')"
    by (auto dest: hexdigest_inj)
  then show ?thesis
    by (simp add: verify_webhook_signature_def generate_signature_def compare_digest_def
        is_ascii_hexdigest Let_def)
qed

section \<open>Loading the index files: recovery\<close>

text \<open>
  Claim C9, as the code has it. Where \<open>exists()\<close> answers: when the file is missing,
  when opening or reading it raises and when \<open>json.load\<close> raises on its text, neither
  \<open>_load_cache_index\<close> nor \<open>load_jobs\<close> raises, and the cache index and the job
  table of a new service are the empty dictionary. When the file parses, the loaders
  yield the value that \<open>json.load\<close> returned, whatever its kind; and \<open>load_jobs\<close> on
  an existing file yields something else than the empty dictionary only in that way.
\<close>

theorem load_index_recovers:
  "(f = Missing \<or> f = Unreadable \<or> (f = Content doc \<and> json_load doc = Inl e) \<longrightarrow>
      load_cache_index json_load f = Inr (JObject []) \<and>
      WebhookService_jobs json_load f = Inr (JObject [])) \<and>
   (f = Content doc \<and> json_load doc = Inr v \<longrightarrow>
      load_cache_index json_load f = Inr v \<and> load_jobs json_load f jobs_before = Inr v) \<and>
   (f = Missing \<longrightarrow> load_jobs json_load f jobs_before = Inr jobs_before) \<and>
   (f \<noteq> Missing \<and> load_jobs json_load f jobs_before = Inr w \<and> w \<noteq> JObject [] \<longrightarrow>
      (\<exists>doc. f = Content doc \<and> json_load doc = Inr w))"
  by (auto simp: load_cache_index_def load_jobs_def WebhookService_jobs_def
      split: file_state.splits sum.splits)

theorem load_index_recovers_witness:
  "load_cache_index json_load_sample (Content ''{not json'') = Inr (JObject []) \<and>
   WebhookService_jobs json_load_sample (Content ''{not json'') = Inr (JObject []) \<and>
   load_cache_index json_load_sample Unreadable = Inr (JObject []) \<and>
   WebhookService_jobs json_load_sample Missing = Inr (JObject []) \<and>
   load_cache_index json_load_sample (Content ''{}'') = Inr (JObject [])"
proof -
  have a: "json_load_sample ''{not json'' = Inl JSONDecodeError"
    and b: "json_load_sample ''{}'' = Inr (JObject [])"
    by (simp_all add: json_load_sample_def)
  show ?thesis
    using a b
      load_index_recovers [where f = "Content ''{not json''" and doc = "''{not json''"
        and json_load = json_load_sample and e = JSONDecodeError]
      load_index_recovers [where f = Unreadable and json_load = json_load_sample]
      load_index_recovers [where f = Missing and json_load = json_load_sample]
      load_index_recovers [where f = "Content ''{}''" and doc = "''{}''"
        and json_load = json_load_sample and v = "JObject []"]
    by simp
qed

text \<open>
  A file that holds the JSON text \<open>[]\<close> parses, and the loaded index and job table are
  then a list, not a dictionary.
\<close>

theorem load_index_counterexample:
  "load_cache_index json_load_sample (Content ''[]'') = Inr (JArray []) \<and>
   WebhookService_jobs json_load_sample (Content ''[]'') = Inr (JArray []) \<and>
   \<not> is_object (JArray [])"
  by (simp add: load_cache_index_def WebhookService_jobs_def load_jobs_def json_load_sample_def)

text \<open>
  The call of \<open>exists()\<close> stands before the \<open>try\<close>: when it raises, as it does on an
  index whose directory cannot be searched, the exception leaves both loaders, where
  the same failure inside \<open>open\<close> is caught.
\<close>

lemma load_raises_when_exists_raises:
  "load_cache_index json_load (ExistsRaises PermissionError) = Inl PermissionError \<and>
   WebhookService_jobs json_load (ExistsRaises PermissionError) = Inl PermissionError \<and>
   load_cache_index json_load Unreadable = Inr (JObject [])"
  by (simp add: load_cache_index_def WebhookService_jobs_def load_jobs_def)

section \<open>The cache: store and lookup\<close>

lemma cache_screenshot_copied:
  assumes "copy2 lib (files cs) (path_str lib p)
             (path_join lib ''cache'' (h @ path_suffix lib p)) = (fs1, True)"
  shows "cache_screenshot lib cs h p now =
           (path_join lib ''cache'' (h @ path_suffix lib p),
            cs\<lparr>files := fs1,
               cache_index := (cache_index cs)(h \<mapsto>
                 \<lparr>file_path = path_join lib ''cache'' (h @ path_suffix lib p),
                  timestamp = now, original_path = path_str lib p\<rparr>)\<rparr>)"
  using assms by (simp add: cache_screenshot_def Let_def)

lemma get_cached_no_entry:
  "cache_index cs h = None \<Longrightarrow> get_cached_screenshot lib cs h now = (Inr None, cs)"
  by (simp add: get_cached_screenshot_def)

lemma get_cached_missing_file:
  "cache_index cs h = Some e \<Longrightarrow> path_exists lib (files cs) (file_path e) = Inr False \<Longrightarrow>
   get_cached_screenshot lib cs h now =
     (Inr None, cs\<lparr>cache_index := (cache_index cs)(h := None)\<rparr>)"
  by (simp add: get_cached_screenshot_def Let_def)

lemma get_cached_expired:
  "cache_index cs h = Some e \<Longrightarrow> path_exists lib (files cs) (file_path e) = Inr True \<Longrightarrow>
   timestamp e + cache_duration_hours cs * 3600000000 < now \<Longrightarrow>
   get_cached_screenshot lib cs h now =
     (Inr None, cs\<lparr>files := unlink lib (files cs) (file_path e),
                    cache_index := (cache_index cs)(h := None)\<rparr>)"
  by (simp add: get_cached_screenshot_def Let_def)

lemma get_cached_valid:
  "cache_index cs h = Some e \<Longrightarrow> path_exists lib (files cs) (file_path e) = Inr True \<Longrightarrow>
   now \<le> timestamp e + cache_duration_hours cs * 3600000000 \<Longrightarrow>
   get_cached_screenshot lib cs h now = (Inr (Some (path_str lib (file_path e))), cs)"
  by (simp add: get_cached_screenshot_def Let_def)

text \<open>
  Claim C7. When \<open>shutil.copy2\<close> returns, \<open>cache_screenshot\<close> returns the path
  \<open>cache\<close> joined with the key followed by the extension of the screenshot, and
  records under the key that path, the time of the call and the source path. If the
  copied file then exists, a lookup of the key up to \<open>cache_duration_hours\<close> hours
  after the store returns that path and changes nothing, and a lookup later than that
  returns \<open>None\<close>, unlinks the file and removes the entry.
  \<open>get_cached_screenshot\<close> returns \<open>None\<close> when the index has no entry for the key;
  when the entry's file does not exist, and then removes the entry; and when the file
  exists and the time is past the entry's timestamp plus \<open>cache_duration_hours\<close>
  hours, and then unlinks the file and removes the entry. At exactly that time the entry
  is still served. The default is 24 hours.
\<close>

theorem cache_lookup_roundtrip:
  "(copy2 lib (files cs) (path_str lib p) (path_join lib ''cache'' (h @ path_suffix lib p)) =
      (fs1, True) \<longrightarrow>
      cache_screenshot lib cs h p now =
        (path_join lib ''cache'' (h @ path_suffix lib p),
         cs\<lparr>files := fs1,
            cache_index := (cache_index cs)(h \<mapsto>
              \<lparr>file_path = path_join lib ''cache'' (h @ path_suffix lib p),
               timestamp = now, original_path = path_str lib p\<rparr>)\<rparr>)) \<and>
   (copy2 lib (files cs) (path_str lib p) (path_join lib ''cache'' (h @ path_suffix lib p)) =
      (fs1, True) \<and>
    path_exists lib fs1 (path_join lib ''cache'' (h @ path_suffix lib p)) = Inr True \<and>
    path_str lib (path_join lib ''cache'' (h @ path_suffix lib p)) =
      path_join lib ''cache'' (h @ path_suffix lib p) \<and>
    later \<le> now + cache_duration_hours cs * 3600000000 \<longrightarrow>
      get_cached_screenshot lib (snd (cache_screenshot lib cs h p now)) h later =
        (Inr (Some (fst (cache_screenshot lib cs h p now))),
         snd (cache_screenshot lib cs h p now))) \<and>
   (copy2 lib (files cs) (path_str lib p) (path_join lib ''cache'' (h @ path_suffix lib p)) =
      (fs1, True) \<and>
    path_exists lib fs1 (path_join lib ''cache'' (h @ path_suffix lib p)) = Inr True \<and>
    now + cache_duration_hours cs * 3600000000 < later \<longrightarrow>
      get_cached_screenshot lib (snd (cache_screenshot lib cs h p now)) h later =
        (Inr None,
         cs\<lparr>files := unlink lib fs1 (path_join lib ''cache'' (h @ path_suffix lib p)),
            cache_index := (cache_index cs)(h := None)\<rparr>)) \<and>
   (cache_index cs h = None \<longrightarrow> get_cached_screenshot lib cs h now = (Inr None, cs)) \<and>
   (cache_index cs h = Some e \<and> path_exists lib (files cs) (file_path e) = Inr False \<longrightarrow>
      get_cached_screenshot lib cs h now =
        (Inr None, cs\<lparr>cache_index := (cache_index cs)(h := None)\<rparr>)) \<and>
   (cache_index cs h = Some e \<and> path_exists lib (files cs) (file_path e) = Inr True \<and>
    timestamp e + cache_duration_hours cs * 3600000000 < now \<longrightarrow>
      get_cached_screenshot lib cs h now =
        (Inr None, cs\<lparr>files := unlink lib (files cs) (file_path e),
                       cache_index := (cache_index cs)(h := None)\<rparr>)) \<and>
   (cache_index cs h = Some e \<and> path_exists lib (files cs) (file_path e) = Inr True \<and>
    now \<le> timestamp e + cache_duration_hours cs * 3600000000 \<longrightarrow>
      get_cached_screenshot lib cs h now = (Inr (Some (path_str lib (file_path e))), cs)) \<and>
   cache_duration_hours (CacheService_default loaded_index fs) = 24"
proof -
  let ?cached = "path_join lib ''cache'' (h @ path_suffix lib p)"
  let ?entry = "\<lparr>file_path = ?cached, timestamp = now, original_path = path_str lib p\<rparr>"
  let ?stored = "cs\<lparr>files := fs1, cache_index := (cache_index cs)(h \<mapsto> ?entry)\<rparr>"
  have store: "cache_screenshot lib cs h p now = (?cached, ?stored)"
    if "copy2 lib (files cs) (path_str lib p) ?cached = (fs1, True)"
    using that by (rule cache_screenshot_copied)
  have hit: "get_cached_screenshot lib (snd (cache_screenshot lib cs h p now)) h later =
        (Inr (Some (fst (cache_screenshot lib cs h p now))),
         snd (cache_screenshot lib cs h p now))"
    if "copy2 lib (files cs) (path_str lib p) ?cached = (fs1, True) \<and>
        path_exists lib fs1 ?cached = Inr True \<and> path_str lib ?cached = ?cached \<and>
        later \<le> now + cache_duration_hours cs * 3600000000"
  proof -
    from that have eq: "cache_screenshot lib cs h p now = (?cached, ?stored)"
      using store by blast
    have "get_cached_screenshot lib ?stored h later =
            (Inr (Some (path_str lib (file_path ?entry))), ?stored)"
      using that by (intro get_cached_valid) simp_all
    then show ?thesis
      using that by (simp add: eq)
  qed
  have late: "get_cached_screenshot lib (snd (cache_screenshot lib cs h p now)) h later =
        (Inr None,
         cs\<lparr>files := unlink lib fs1 ?cached, cache_index := (cache_index cs)(h := None)\<rparr>)"
    if "copy2 lib (files cs) (path_str lib p) ?cached = (fs1, True) \<and>
        path_exists lib fs1 ?cached = Inr True \<and>
        now + cache_duration_hours cs * 3600000000 < later"
  proof -
    from that have eq: "cache_screenshot lib cs h p now = (?cached, ?stored)"
      using store by blast
    have "get_cached_screenshot lib ?stored h later =
            (Inr None, ?stored\<lparr>files := unlink lib (files ?stored) (file_path ?entry),
                               cache_index := (cache_index ?stored)(h := None)\<rparr>)"
      using that by (intro get_cached_expired) simp_all
    then show ?thesis
      by (simp add: eq)
  qed
  have dflt: "cache_duration_hours (CacheService_default loaded_index fs) = 24"
    by (simp add: CacheService_default_def CacheService_def)
  show ?thesis
    using store hit late dflt
      get_cached_no_entry [of cs h lib now]
      get_cached_missing_file [of cs h e lib now]
      get_cached_expired [of cs h e lib now]
      get_cached_valid [of cs h e lib now]
    by blast
qed

lemma plain_lib_simps:
  "path_str plain_lib p = p"
  "path_suffix plain_lib p = ''.png''"
  "path_join plain_lib d name = d @ ''/'' @ name"
  "path_exists plain_lib fs p = Inr (p \<in> fs)"
  "copy2 plain_lib fs src dst =
     (if src \<in> fs \<and> src \<noteq> dst then (insert dst fs, True) else (fs, False))"
  "unlink plain_lib fs p = fs - {p}"
  by (simp_all add: plain_lib_def)

theorem cache_lookup_roundtrip_witness:
  "cache_screenshot plain_lib cache0 ''abc'' ''screenshots/a.png'' 1000 =
     (''cache/abc.png'',
      cache0\<lparr>files := {''cache/abc.png'', ''screenshots/a.png''},
             cache_index := [''abc'' \<mapsto> \<lparr>file_path = ''cache/abc.png'', timestamp = 1000,
                                           original_path = ''screenshots/a.png''\<rparr>]\<rparr>) \<and>
   fst (get_cached_screenshot plain_lib
          (snd (cache_screenshot plain_lib cache0 ''abc'' ''screenshots/a.png'' 1000))
          ''abc'' 7200001000) = Inr (Some ''cache/abc.png'') \<and>
   get_cached_screenshot plain_lib
     (snd (cache_screenshot plain_lib cache0 ''abc'' ''screenshots/a.png'' 1000))
     ''abc'' 7200001001 = (Inr None, cache0) \<and>
   get_cached_screenshot plain_lib cache0 ''abc'' 0 = (Inr None, cache0) \<and>
   get_cached_screenshot plain_lib cache1 ''abc'' 2000 =
     (Inr None, cache1\<lparr>cache_index := Map.empty\<rparr>)"
proof -
  define e where "e = \<lparr>file_path = ''cache/abc.png'', timestamp = 1000,
                        original_path = ''screenshots/a.png''\<rparr>"
  have c0: "files cache0 = {''screenshots/a.png''}" "cache_index cache0 = Map.empty"
    "cache_duration_hours cache0 = 2"
    by (simp_all add: cache0_def CacheService_def)
  have c1: "cache_index cache1 ''abc'' = Some e"
    "path_exists plain_lib (files cache1) (file_path e) = Inr False"
    by (simp_all add: cache1_def CacheService_def e_def plain_lib_simps)
  have copy: "copy2 plain_lib (files cache0) (path_str plain_lib ''screenshots/a.png'')
      (path_join plain_lib ''cache'' (''abc'' @ path_suffix plain_lib ''screenshots/a.png'')) =
      ({''cache/abc.png'', ''screenshots/a.png''}, True)"
    by (simp add: plain_lib_simps c0)
  have ex: "path_exists plain_lib {''cache/abc.png'', ''screenshots/a.png''}
      (path_join plain_lib ''cache'' (''abc'' @ path_suffix plain_lib ''screenshots/a.png'')) =
      Inr True"
    by (simp add: plain_lib_simps)
  have idem: "path_str plain_lib
      (path_join plain_lib ''cache'' (''abc'' @ path_suffix plain_lib ''screenshots/a.png'')) =
      path_join plain_lib ''cache'' (''abc'' @ path_suffix plain_lib ''screenshots/a.png'')"
    by (simp add: plain_lib_simps)
  have t1: "(7200001000::int) \<le> 1000 + cache_duration_hours cache0 * 3600000000"
    and t2: "1000 + cache_duration_hours cache0 * 3600000000 < (7200001001::int)"
    by (simp_all add: c0)
  have nm: "path_join plain_lib ''cache'' (''abc'' @ path_suffix plain_lib ''screenshots/a.png'') =
      ''cache/abc.png''"
    by (simp add: plain_lib_simps)
  note t = cache_lookup_roundtrip [where lib = plain_lib and cs = cache0 and h = "''abc''"
      and p = "''screenshots/a.png''" and now = 1000
      and ?fs1.0 = "{''cache/abc.png'', ''screenshots/a.png''}" and e = e
      and loaded_index = Map.empty and fs = "{}::string set"]
  have r1: "cache_screenshot plain_lib cache0 ''abc'' ''screenshots/a.png'' 1000 =
     (''cache/abc.png'',
      cache0\<lparr>files := {''cache/abc.png'', ''screenshots/a.png''},
             cache_index := [''abc'' \<mapsto> e]\<rparr>)"
    using t [where later = 0] copy by (simp add: nm c0 plain_lib_simps e_def)
  have r2: "get_cached_screenshot plain_lib
          (snd (cache_screenshot plain_lib cache0 ''abc'' ''screenshots/a.png'' 1000))
          ''abc'' 7200001000 =
        (Inr (Some (fst (cache_screenshot plain_lib cache0 ''abc'' ''screenshots/a.png'' 1000))),
         snd (cache_screenshot plain_lib cache0 ''abc'' ''screenshots/a.png'' 1000))"
    using t [where later = 7200001000] copy ex idem t1 by blast
  have r3: "get_cached_screenshot plain_lib
          (snd (cache_screenshot plain_lib cache0 ''abc'' ''screenshots/a.png'' 1000))
          ''abc'' 7200001001 =
        (Inr None,
         cache0\<lparr>files := unlink plain_lib {''cache/abc.png'', ''screenshots/a.png''}
                   (path_join plain_lib ''cache''
                      (''abc'' @ path_suffix plain_lib ''screenshots/a.png'')),
                cache_index := (cache_index cache0)(''abc'' := None)\<rparr>)"
    using t [where later = 7200001001] copy ex t2 by blast
  have restored: "cache0\<lparr>files := unlink plain_lib {''cache/abc.png'', ''screenshots/a.png''}
                   (path_join plain_lib ''cache''
                      (''abc'' @ path_suffix plain_lib ''screenshots/a.png'')),
                cache_index := (cache_index cache0)(''abc'' := None)\<rparr> = cache0"
    by (simp add: cache0_def CacheService_def plain_lib_simps)
  have r4: "get_cached_screenshot plain_lib cache0 ''abc'' 0 = (Inr None, cache0)"
    using cache_lookup_roundtrip [where lib = plain_lib and cs = cache0 and h = "''abc''"
      and p = "''screenshots/a.png''" and now = 0 and later = 0
      and ?fs1.0 = "{}" and e = e and loaded_index = Map.empty and fs = "{}::string set"]
    by (simp add: c0)
  have r5: "get_cached_screenshot plain_lib cache1 ''abc'' 2000 =
     (Inr None, cache1\<lparr>cache_index := (cache_index cache1)(''abc'' := None)\<rparr>)"
    using cache_lookup_roundtrip [where lib = plain_lib and cs = cache1 and h = "''abc''"
      and p = "''screenshots/a.png''" and now = 2000 and later = 0
      and ?fs1.0 = "{}" and e = e and loaded_index = Map.empty and fs = "{}::string set"] c1
    by blast
  have empty1: "(cache_index cache1)(''abc'' := None) = Map.empty"
    by (auto simp: cache1_def CacheService_def)
  have r3': "get_cached_screenshot plain_lib
          (snd (cache_screenshot plain_lib cache0 ''abc'' ''screenshots/a.png'' 1000))
          ''abc'' 7200001001 = (Inr None, cache0)"
    using r3 by (simp only: restored)
  have r5': "get_cached_screenshot plain_lib cache1 ''abc'' 2000 =
     (Inr None, cache1\<lparr>cache_index := Map.empty\<rparr>)"
    using r5 by (simp only: empty1)
  show ?thesis
    using r1 r2 r3' r4 r5' by (simp add: e_def)
qed

section \<open>The cache key\<close>

text \<open>
  The decimal text of an integer determines the integer, the text of a Boolean the
  Boolean; the text of an optional string determines it except that \<open>None\<close> and the
  string \<open>None\<close> have the same text.
\<close>

lemma str_nat_small: "n < 10 \<Longrightarrow> str_nat n = [digit_char n]"
  by (subst str_nat.simps) simp

lemma str_nat_big: "\<not> n < 10 \<Longrightarrow> str_nat n = str_nat (n div 10) @ [digit_char (n mod 10)]"
  by (subst str_nat.simps) simp

lemma str_nat_nonempty: "str_nat n \<noteq> []"
  by (cases "n < 10") (simp_all add: str_nat_small str_nat_big)

lemma digit_char_inj:
  assumes "i < 10" "j < 10" "digit_char i = digit_char j"
  shows "i = j"
proof -
  have d: "distinct ''0123456789''" by simp
  have "i < length ''0123456789''" "j < length ''0123456789''"
    using assms(1,2) by simp_all
  then show ?thesis
    using assms nth_eq_iff_index_eq [OF d, of i j] by (simp add: digit_char_def)
qed

lemma digit_char_not_minus: "digit_char n \<noteq> CHR ''-''"
proof -
  have "list_all (\<lambda>c. c \<noteq> CHR ''-'') ''0123456789''" by simp
  moreover have "n mod 10 < length ''0123456789''" by simp
  ultimately show ?thesis
    unfolding digit_char_def list_all_length by blast
qed

lemma str_nat_inj: "str_nat n = str_nat m \<Longrightarrow> n = m"
proof (induction n arbitrary: m rule: str_nat.induct)
  case (1 n)
  show ?case
  proof (cases "n < 10")
    case small: True
    show ?thesis
    proof (cases "m < 10")
      case True
      with small "1.prems" show ?thesis
        by (simp add: str_nat_small digit_char_inj)
    next
      case False
      with small "1.prems" show ?thesis
        using str_nat_nonempty [of "m div 10"] by (simp add: str_nat_small str_nat_big)
    qed
  next
    case big: False
    show ?thesis
    proof (cases "m < 10")
      case True
      with big "1.prems" show ?thesis
        using str_nat_nonempty [of "n div 10"] by (simp add: str_nat_small str_nat_big)
    next
      case False
      with big "1.prems" have "str_nat (n div 10) = str_nat (m div 10)"
        and "digit_char (n mod 10) = digit_char (m mod 10)"
        by (simp_all add: str_nat_big)
      then have "n div 10 = m div 10" and "n mod 10 = m mod 10"
        using "1.IH" [OF big] by (simp_all add: digit_char_inj)
      then show ?thesis by (metis div_mult_mod_eq)
    qed
  qed
qed

lemma str_nat_hd: "hd (str_nat n) \<noteq> CHR ''-''"
proof (induction n rule: str_nat.induct)
  case (1 n)
  show ?case
  proof (cases "n < 10")
    case True
    then show ?thesis by (simp add: str_nat_small digit_char_not_minus)
  next
    case False
    then show ?thesis
      using "1.IH" [OF False] str_nat_nonempty [of "n div 10"]
      by (simp add: str_nat_big)
  qed
qed

lemma py_str_int_inj: "py_str_int i = py_str_int j \<longleftrightarrow> i = j"
proof
  assume eq: "py_str_int i = py_str_int j"
  have neg_pos: False if "CHR ''-'' # str_nat a = str_nat b" for a b
    using that str_nat_hd [of b] by (metis list.sel(1))
  show "i = j"
  proof (cases "i < 0")
    case True
    show ?thesis
    proof (cases "j < 0")
      case jn: True
      with True eq have "nat (- i) = nat (- j)"
        by (simp add: py_str_int_def str_nat_inj)
      with True jn show ?thesis by simp
    next
      case False
      with True eq show ?thesis
        using neg_pos by (simp add: py_str_int_def)
    qed
  next
    case False
    show ?thesis
    proof (cases "j < 0")
      case True
      with False eq show ?thesis
        using neg_pos [of "nat (- j)" "nat i"] by (simp add: py_str_int_def)
    next
      case jp: False
      with False eq have "nat i = nat j"
        by (simp add: py_str_int_def str_nat_inj)
      with False jp show ?thesis by simp
    qed
  qed
qed simp

lemma py_str_bool_inj: "py_str_bool a = py_str_bool b \<longleftrightarrow> a = b"
  by (simp add: py_str_bool_def)

lemma py_str_opt_eq:
  "py_str_opt v = py_str_opt w \<longleftrightarrow>
     v = w \<or> (v = None \<and> w = Some ''None'') \<or> (v = Some ''None'' \<and> w = None)"
  by (auto simp: py_str_opt_def split: option.splits)

lemma key_string_single_field:
  "key_string u w h f fmt q d = key_string u' w h f fmt q d \<longleftrightarrow> u = u'"
  "key_string u w h f fmt q d = key_string u w' h f fmt q d \<longleftrightarrow> w = w'"
  "key_string u w h f fmt q d = key_string u w h' f fmt q d \<longleftrightarrow> h = h'"
  "key_string u w h f fmt q d = key_string u w h f' fmt q d \<longleftrightarrow> f = f'"
  "key_string u w h f fmt q d = key_string u w h f fmt' q d \<longleftrightarrow> fmt = fmt'"
  "key_string u w h f fmt q d = key_string u w h f fmt q' d \<longleftrightarrow> q = q'"
  "key_string u w h f fmt q d = key_string u w h f fmt q d' \<longleftrightarrow> d = d'"
  by (simp_all add: key_string_def py_str_int_inj py_str_bool_inj)

lemma cache_params_single_field:
  "cache_params (r\<lparr>r_selector := v\<rparr>) = cache_params (r\<lparr>r_selector := v'\<rparr>) \<longleftrightarrow>
     py_str_opt v = py_str_opt v'"
  "cache_params (r\<lparr>r_device := v\<rparr>) = cache_params (r\<lparr>r_device := v'\<rparr>) \<longleftrightarrow>
     py_str_opt v = py_str_opt v'"
  "cache_params (r\<lparr>r_user_agent := v\<rparr>) = cache_params (r\<lparr>r_user_agent := v'\<rparr>) \<longleftrightarrow>
     py_str_opt v = py_str_opt v'"
  "cache_params (r\<lparr>r_wait_for_selector := v\<rparr>) = cache_params (r\<lparr>r_wait_for_selector := v'\<rparr>) \<longleftrightarrow>
     py_str_opt v = py_str_opt v'"
  "cache_params (r\<lparr>r_media_type := v\<rparr>) = cache_params (r\<lparr>r_media_type := v'\<rparr>) \<longleftrightarrow>
     py_str_opt v = py_str_opt v'"
  "cache_params (r\<lparr>r_timezone := v\<rparr>) = cache_params (r\<lparr>r_timezone := v'\<rparr>) \<longleftrightarrow>
     py_str_opt v = py_str_opt v'"
  "cache_params (r\<lparr>r_dark_mode := b\<rparr>) = cache_params (r\<lparr>r_dark_mode := b'\<rparr>) \<longleftrightarrow> b = b'"
  "cache_params (r\<lparr>r_block_ads := b\<rparr>) = cache_params (r\<lparr>r_block_ads := b'\<rparr>) \<longleftrightarrow> b = b'"
  "cache_params (r\<lparr>r_scroll_page := b\<rparr>) = cache_params (r\<lparr>r_scroll_page := b'\<rparr>) \<longleftrightarrow> b = b'"
  by (simp_all add: cache_params_def py_str_bool_inj)

text \<open>
  Claim C6, where the code departs from it. The key is a function of the parameters, so
  equal parameters give equal keys. Two requests that differ in one of url, width,
  height, full-page flag, format, quality, delay, dark mode, ad blocking or scrolling
  have different texts before hashing (\<open>key_string_single_field\<close>,
  \<open>cache_params_single_field\<close>). A request without a selector and the same request
  with the selector \<open>None\<close> differ, and yet have the same text before the final hash
  and the same key, whatever the hash function; the same holds for the user agent,
  and by \<open>cache_params_single_field\<close> and \<open>py_str_opt_eq\<close> for the device, the
  wait selector, the media type and the time zone.
\<close>

theorem cache_key_none_collision:
  "request0\<lparr>r_selector := Some ''None''\<rparr> \<noteq> request0 \<and>
   extended_key_string sha256 (request0\<lparr>r_selector := Some ''None''\<rparr>) =
     extended_key_string sha256 request0 \<and>
   screenshot_cache_key sha256 (request0\<lparr>r_selector := Some ''None''\<rparr>) =
     screenshot_cache_key sha256 request0 \<and>
   screenshot_cache_key sha256 (request0\<lparr>r_user_agent := Some ''None''\<rparr>) =
     screenshot_cache_key sha256 request0"
proof -
  have "r_selector (request0\<lparr>r_selector := Some ''None''\<rparr>) \<noteq> r_selector request0"
    by (simp add: request0_def)
  then have "request0\<lparr>r_selector := Some ''None''\<rparr> \<noteq> request0"
    by metis
  then show ?thesis
    by (simp add: screenshot_cache_key_def extended_key_string_def cache_params_def
        py_str_opt_def request0_def)
qed

end
